theory Spec2Isabelle
  imports Main "HOL-Library.Word"
begin

unbundle bit_operations_syntax

section \<open>Machine types and faults\<close>

text \<open>
  \<^verbatim>\<open>uint32_t\<close> and \<^verbatim>\<open>int32_t\<close> are 32-bit words; \<^verbatim>\<open>wl_fixed_t\<close> is the 24.8 signed
  fixed-point number of the protocol, an \<^verbatim>\<open>int32_t\<close>.

  The C programs have behaviours that end the handler without a result: indexing an
  array outside its bounds, handing a null pointer to a library function that
  dereferences it, a failed \<^verbatim>\<open>assert\<close>. Each is a value of \<open>fault\<close>, and a handler
  that can reach one returns \<open>fault + 'a\<close>. A fault stands for the end of the run:
  what the handler had written or printed before it is not kept.
\<close>

type_synonym u32 = "32 word"
type_synonym wl_fixed_t = "32 word"

type_synonym addr = int

datatype fault = OutOfBounds | NullPointer | UseAfterFree | AssertionFailed

section \<open>The pending pointer frame of waylandbook.example.c\<close>

definition POINTER_EVENT_ENTER :: u32 where "POINTER_EVENT_ENTER = push_bit 0 1"
definition POINTER_EVENT_LEAVE :: u32 where "POINTER_EVENT_LEAVE = push_bit 1 1"
definition POINTER_EVENT_MOTION :: u32 where "POINTER_EVENT_MOTION = push_bit 2 1"
definition POINTER_EVENT_BUTTON :: u32 where "POINTER_EVENT_BUTTON = push_bit 3 1"
definition POINTER_EVENT_AXIS :: u32 where "POINTER_EVENT_AXIS = push_bit 4 1"
definition POINTER_EVENT_AXIS_SOURCE :: u32 where "POINTER_EVENT_AXIS_SOURCE = push_bit 5 1"
definition POINTER_EVENT_AXIS_STOP :: u32 where "POINTER_EVENT_AXIS_STOP = push_bit 6 1"
definition POINTER_EVENT_AXIS_DISCRETE :: u32 where "POINTER_EVENT_AXIS_DISCRETE = push_bit 7 1"

text \<open>One element of \<^verbatim>\<open>axes[2]\<close>; the field \<^verbatim>\<open>value\<close> is called \<open>axis_value\<close> here.\<close>

record axis_slot =
  valid :: bool
  axis_value :: wl_fixed_t
  discrete :: u32

text \<open>
  \<^verbatim>\<open>struct pointer_event\<close>. The array \<^verbatim>\<open>axes[2]\<close> is a list; every state the program
  builds holds exactly two slots, and the handlers compare the index with the declared
  size 2 before they touch the list.
\<close>

record pointer_event =
  event_mask :: u32
  surface_x :: wl_fixed_t
  surface_y :: wl_fixed_t
  button :: u32
  state :: u32
  time :: u32
  serial :: u32
  axes :: "axis_slot list"
  axis_source :: u32

text \<open>The all-zero structure: \<^verbatim>\<open>struct client_state state = { 0 }\<close> and the \<^verbatim>\<open>memset\<close>.\<close>

definition zero_slot :: axis_slot where
  "zero_slot = \<lparr>valid = False, axis_value = 0, discrete = 0\<rparr>"

definition zero_event :: pointer_event where
  "zero_event = \<lparr>event_mask = 0, surface_x = 0, surface_y = 0, button = 0, state = 0,
     time = 0, serial = 0, axes = [zero_slot, zero_slot], axis_source = 0\<rparr>"

subsection \<open>The fragment handlers\<close>

definition wl_pointer_enter :: "pointer_event \<Rightarrow> u32 \<Rightarrow> wl_fixed_t \<Rightarrow> wl_fixed_t \<Rightarrow> pointer_event" where
  "wl_pointer_enter ev serial' sx sy =
     ev\<lparr>event_mask := event_mask ev OR POINTER_EVENT_ENTER,
        serial := serial', surface_x := sx, surface_y := sy\<rparr>"

definition wl_pointer_leave :: "pointer_event \<Rightarrow> u32 \<Rightarrow> pointer_event" where
  "wl_pointer_leave ev serial' =
     ev\<lparr>serial := serial', event_mask := event_mask ev OR POINTER_EVENT_LEAVE\<rparr>"

definition wl_pointer_motion :: "pointer_event \<Rightarrow> u32 \<Rightarrow> wl_fixed_t \<Rightarrow> wl_fixed_t \<Rightarrow> pointer_event" where
  "wl_pointer_motion ev time' sx sy =
     ev\<lparr>event_mask := event_mask ev OR POINTER_EVENT_MOTION,
        time := time', surface_x := sx, surface_y := sy\<rparr>"

definition wl_pointer_button :: "pointer_event \<Rightarrow> u32 \<Rightarrow> u32 \<Rightarrow> u32 \<Rightarrow> u32 \<Rightarrow> pointer_event" where
  "wl_pointer_button ev serial' time' button' state' =
     ev\<lparr>event_mask := event_mask ev OR POINTER_EVENT_BUTTON,
        time := time', serial := serial', button := button', state := state'\<rparr>"

text \<open>
  The three handlers below index \<^verbatim>\<open>axes[axis]\<close> with the \<^verbatim>\<open>uint32_t\<close> they are given and
  without any check. An index of 2 or more is outside the array: the write is undefined
  behaviour in C, the fault \<open>OutOfBounds\<close> here.
\<close>

definition wl_pointer_axis :: "pointer_event \<Rightarrow> u32 \<Rightarrow> u32 \<Rightarrow> wl_fixed_t \<Rightarrow> fault + pointer_event" where
  "wl_pointer_axis ev time' axis v =
     (if unat axis < 2
      then Inr (ev\<lparr>event_mask := event_mask ev OR POINTER_EVENT_AXIS,
                   time := time',
                   axes := (axes ev)[unat axis :=
                      (axes ev ! unat axis)\<lparr>valid := True, axis_value := v\<rparr>]\<rparr>)
      else Inl OutOfBounds)"

definition wl_pointer_axis_source :: "pointer_event \<Rightarrow> u32 \<Rightarrow> pointer_event" where
  "wl_pointer_axis_source ev axis_source' =
     ev\<lparr>event_mask := event_mask ev OR POINTER_EVENT_AXIS_SOURCE,
        axis_source := axis_source'\<rparr>"

definition wl_pointer_axis_stop :: "pointer_event \<Rightarrow> u32 \<Rightarrow> u32 \<Rightarrow> fault + pointer_event" where
  "wl_pointer_axis_stop ev time' axis =
     (if unat axis < 2
      then Inr (ev\<lparr>time := time',
                   event_mask := event_mask ev OR POINTER_EVENT_AXIS_STOP,
                   axes := (axes ev)[unat axis := (axes ev ! unat axis)\<lparr>valid := True\<rparr>]\<rparr>)
      else Inl OutOfBounds)"

definition wl_pointer_axis_discrete :: "pointer_event \<Rightarrow> u32 \<Rightarrow> u32 \<Rightarrow> fault + pointer_event" where
  "wl_pointer_axis_discrete ev axis discrete' =
     (if unat axis < 2
      then Inr (ev\<lparr>event_mask := event_mask ev OR POINTER_EVENT_AXIS_DISCRETE,
                   axes := (axes ev)[unat axis :=
                      (axes ev ! unat axis)\<lparr>valid := True, discrete := discrete'\<rparr>]\<rparr>)
      else Inl OutOfBounds)"

subsection \<open>The frame handler\<close>

text \<open>
  \<^verbatim>\<open>wl_pointer_frame\<close> writes the snapshot to \<^verbatim>\<open>stderr\<close>, one \<^verbatim>\<open>fprintf\<close> per part. Each
  call is one item of the output, holding the arguments of the call: a coordinate is the
  \<^verbatim>\<open>wl_fixed_t\<close> handed to \<^verbatim>\<open>wl_fixed_to_double\<close>, an axis name or source name is the index
  into the table \<^verbatim>\<open>axis_name[2]\<close> or \<^verbatim>\<open>axis_source[4]\<close>. An item printed inside the loop
  over the axes also records the loop index it was printed for.
\<close>

datatype out_item =
    PFrameAt u32
  | PEntered wl_fixed_t wl_fixed_t
  | PLeave
  | PMotion wl_fixed_t wl_fixed_t
  | PButton u32 string
  | PAxisName nat
  | PAxisValue nat wl_fixed_t
  | PAxisDiscrete nat u32
  | PAxisVia nat u32
  | PAxisStopped nat
  | PNewline

text \<open>
  The constants of the protocol headers (\<^verbatim>\<open>wayland-client-protocol.h\<close>,
  \<^verbatim>\<open>xkbcommon-keysyms.h\<close>) that the handlers compare with; the headers are not part of
  the repository, so the values are parameters of the model.
\<close>

record headers =
  WL_POINTER_BUTTON_STATE_RELEASED :: u32
  WL_SEAT_CAPABILITY_POINTER :: u32
  WL_SEAT_CAPABILITY_KEYBOARD :: u32
  WL_KEYBOARD_KEY_STATE_PRESSED :: u32
  WL_KEYBOARD_KEYMAP_FORMAT_XKB_V1 :: u32
  XKB_KEY_BackSpace :: u32

text \<open>The values the headers give these constants, for evaluating the model on examples.\<close>

definition protocol_headers :: headers where
  "protocol_headers = \<lparr>WL_POINTER_BUTTON_STATE_RELEASED = 0,
     WL_SEAT_CAPABILITY_POINTER = 1, WL_SEAT_CAPABILITY_KEYBOARD = 2,
     WL_KEYBOARD_KEY_STATE_PRESSED = 1, WL_KEYBOARD_KEYMAP_FORMAT_XKB_V1 = 1,
     XKB_KEY_BackSpace = 0xff08\<rparr>"

definition axis_events :: u32 where
  "axis_events = POINTER_EVENT_AXIS OR POINTER_EVENT_AXIS_SOURCE
      OR POINTER_EVENT_AXIS_STOP OR POINTER_EVENT_AXIS_DISCRETE"

text \<open>
  The body of the loop for index \<open>i\<close>. The table \<^verbatim>\<open>axis_source[4]\<close> is indexed with the
  stored \<^verbatim>\<open>axis_source\<close> unchecked: a value of 4 or more reads outside the table.
\<close>

definition axis_report :: "pointer_event \<Rightarrow> nat \<Rightarrow> fault + out_item list" where
  "axis_report ev i =
     (if \<not> valid (axes ev ! i) then Inr []
      else if event_mask ev AND POINTER_EVENT_AXIS_SOURCE \<noteq> 0 \<and> \<not> unat (axis_source ev) < 4
      then Inl OutOfBounds
      else Inr ([PAxisName i]
        @ (if event_mask ev AND POINTER_EVENT_AXIS \<noteq> 0
           then [PAxisValue i (axis_value (axes ev ! i))] else [])
        @ (if event_mask ev AND POINTER_EVENT_AXIS_DISCRETE \<noteq> 0
           then [PAxisDiscrete i (discrete (axes ev ! i))] else [])
        @ (if event_mask ev AND POINTER_EVENT_AXIS_SOURCE \<noteq> 0
           then [PAxisVia i (axis_source ev)] else [])
        @ (if event_mask ev AND POINTER_EVENT_AXIS_STOP \<noteq> 0
           then [PAxisStopped i] else [])))"

definition axes_report :: "pointer_event \<Rightarrow> fault + out_item list" where
  "axes_report ev =
     (if event_mask ev AND axis_events \<noteq> 0
      then (case axis_report ev 0 of
              Inl e \<Rightarrow> Inl e
            | Inr r0 \<Rightarrow> (case axis_report ev 1 of
                          Inl e \<Rightarrow> Inl e
                        | Inr r1 \<Rightarrow> Inr (r0 @ r1)))
      else Inr [])"

text \<open>The handler returns what it printed and the structure after the \<^verbatim>\<open>memset\<close>.\<close>

definition wl_pointer_frame :: "headers \<Rightarrow> pointer_event \<Rightarrow> fault + (out_item list \<times> pointer_event)" where
  "wl_pointer_frame H ev =
     (case axes_report ev of
        Inl e \<Rightarrow> Inl e
      | Inr ax \<Rightarrow>
          Inr ([PFrameAt (time ev)]
            @ (if event_mask ev AND POINTER_EVENT_ENTER \<noteq> 0
               then [PEntered (surface_x ev) (surface_y ev)] else [])
            @ (if event_mask ev AND POINTER_EVENT_LEAVE \<noteq> 0 then [PLeave] else [])
            @ (if event_mask ev AND POINTER_EVENT_MOTION \<noteq> 0
               then [PMotion (surface_x ev) (surface_y ev)] else [])
            @ (if event_mask ev AND POINTER_EVENT_BUTTON \<noteq> 0
               then [PButton (button ev)
                      (if state ev = WL_POINTER_BUTTON_STATE_RELEASED H
                       then ''released'' else ''pressed'')] else [])
            @ ax @ [PNewline],
            zero_event))"

subsection \<open>Sequences of fragments\<close>

text \<open>
  The raw pointer events between two frame events, as the listener table
  \<^verbatim>\<open>wl_pointer_listener\<close> routes them.
\<close>

datatype fragment =
    FEnter u32 wl_fixed_t wl_fixed_t
  | FLeave u32
  | FMotion u32 wl_fixed_t wl_fixed_t
  | FButton u32 u32 u32 u32
  | FAxis u32 u32 wl_fixed_t
  | FAxisSource u32
  | FAxisStop u32 u32
  | FAxisDiscrete u32 u32

fun apply_fragment :: "pointer_event \<Rightarrow> fragment \<Rightarrow> fault + pointer_event" where
  "apply_fragment ev (FEnter s x y) = Inr (wl_pointer_enter ev s x y)"
| "apply_fragment ev (FLeave s) = Inr (wl_pointer_leave ev s)"
| "apply_fragment ev (FMotion t x y) = Inr (wl_pointer_motion ev t x y)"
| "apply_fragment ev (FButton s t b st) = Inr (wl_pointer_button ev s t b st)"
| "apply_fragment ev (FAxis t a v) = wl_pointer_axis ev t a v"
| "apply_fragment ev (FAxisSource src) = Inr (wl_pointer_axis_source ev src)"
| "apply_fragment ev (FAxisStop t a) = wl_pointer_axis_stop ev t a"
| "apply_fragment ev (FAxisDiscrete a d) = wl_pointer_axis_discrete ev a d"

fun run_fragments :: "pointer_event \<Rightarrow> fragment list \<Rightarrow> fault + pointer_event" where
  "run_fragments ev [] = Inr ev"
| "run_fragments ev (f # fs) =
     (case apply_fragment ev f of Inl e \<Rightarrow> Inl e | Inr ev' \<Rightarrow> run_fragments ev' fs)"


text \<open>One whole frame: the fragments arrive at the flushed structure, then the frame event.\<close>

definition pointer_frame_of :: "headers \<Rightarrow> fragment list \<Rightarrow> fault + (out_item list \<times> pointer_event)" where
  "pointer_frame_of H fs =
     (case run_fragments zero_event fs of Inl e \<Rightarrow> Inl e | Inr ev \<Rightarrow> wl_pointer_frame H ev)"

text \<open>
  What the claims about a frame speak of: the bit of the mask a fragment sets, whether a
  fragment respects the protocol's ranges (two axes, four axis sources), the axis an
  axis fragment is for, and whether a fragment stores coordinates.
\<close>

fun kind_bit :: "fragment \<Rightarrow> nat" where
  "kind_bit (FEnter s x y) = 0"
| "kind_bit (FLeave s) = 1"
| "kind_bit (FMotion t x y) = 2"
| "kind_bit (FButton s t b st) = 3"
| "kind_bit (FAxis t a v) = 4"
| "kind_bit (FAxisSource src) = 5"
| "kind_bit (FAxisStop t a) = 6"
| "kind_bit (FAxisDiscrete a d) = 7"

fun fragment_in_range :: "fragment \<Rightarrow> bool" where
  "fragment_in_range (FAxis t a v) = (unat a < 2)"
| "fragment_in_range (FAxisSource src) = (unat src < 4)"
| "fragment_in_range (FAxisStop t a) = (unat a < 2)"
| "fragment_in_range (FAxisDiscrete a d) = (unat a < 2)"
| "fragment_in_range f = True"

fun axis_index :: "fragment \<Rightarrow> nat option" where
  "axis_index (FAxis t a v) = Some (unat a)"
| "axis_index (FAxisStop t a) = Some (unat a)"
| "axis_index (FAxisDiscrete a d) = Some (unat a)"
| "axis_index f = None"

definition touches_axis :: "fragment list \<Rightarrow> nat \<Rightarrow> bool" where
  "touches_axis fs i = (Some i \<in> set (map axis_index fs))"

fun writes_coords :: "fragment \<Rightarrow> bool" where
  "writes_coords (FEnter s x y) = True"
| "writes_coords (FMotion t x y) = True"
| "writes_coords f = False"

fun writes_axis_value :: "nat \<Rightarrow> fragment \<Rightarrow> bool" where
  "writes_axis_value i (FAxis t a v) = (unat a = i)"
| "writes_axis_value i f = False"

text \<open>
  Which fragments store the other values that a frame prints: the discrete step of an
  axis, the button and its state, the axis source, and the time (a motion, button,
  axis or stop event carries one).
\<close>

fun writes_discrete :: "nat \<Rightarrow> fragment \<Rightarrow> bool" where
  "writes_discrete i (FAxisDiscrete a d) = (unat a = i)"
| "writes_discrete i f = False"

fun writes_button :: "fragment \<Rightarrow> bool" where
  "writes_button (FButton s t b st) = True"
| "writes_button f = False"

fun writes_source :: "fragment \<Rightarrow> bool" where
  "writes_source (FAxisSource src) = True"
| "writes_source f = False"

fun fragment_time :: "fragment \<Rightarrow> u32 option" where
  "fragment_time (FMotion t x y) = Some t"
| "fragment_time (FButton s t b st) = Some t"
| "fragment_time (FAxis t a v) = Some t"
| "fragment_time (FAxisStop t a) = Some t"
| "fragment_time f = None"

definition writes_time :: "fragment \<Rightarrow> bool" where
  "writes_time f = (fragment_time f \<noteq> None)"

section \<open>The seat of waylandbook.example.c\<close>

text \<open>
  The part of \<^verbatim>\<open>struct client_state\<close> that the seat and keyboard listeners use. A
  pointer to a library object is \<open>Some\<close> of its address, \<^verbatim>\<open>NULL\<close> is \<open>None\<close>. (The
  pointer handlers above work on the member \<^verbatim>\<open>pointer_event\<close> alone.)
\<close>

record client_state =
  wl_keyboard :: "addr option"
  wl_pointer :: "addr option"
  xkb_state :: "addr option"
  xkb_context :: "addr option"
  xkb_keymap :: "addr option"

text \<open>The requests a capability event sends to the compositor library.\<close>

datatype request =
    SeatGetPointer
  | PointerAddListener addr
  | PointerRelease addr
  | SeatGetKeyboard
  | KeyboardAddListener addr
  | KeyboardRelease addr

text \<open>
  \<open>new_pointer\<close> and \<open>new_keyboard\<close> are what \<^verbatim>\<open>wl_seat_get_pointer\<close> and
  \<^verbatim>\<open>wl_seat_get_keyboard\<close> would return at this call; the code hands the result to
  \<^verbatim>\<open>wl_pointer_add_listener\<close> unchecked, which dereferences it.
\<close>

definition seat_pointer_part :: "headers \<Rightarrow> client_state \<Rightarrow> u32 \<Rightarrow> addr option
    \<Rightarrow> fault + (request list \<times> client_state)" where
  "seat_pointer_part H st capabilities new_pointer =
     (let have_pointer = (capabilities AND WL_SEAT_CAPABILITY_POINTER H \<noteq> 0) in
      if have_pointer \<and> wl_pointer st = None
      then (case new_pointer of
              None \<Rightarrow> Inl NullPointer
            | Some p \<Rightarrow> Inr ([SeatGetPointer, PointerAddListener p], st\<lparr>wl_pointer := Some p\<rparr>))
      else (case wl_pointer st of
              Some p \<Rightarrow> if \<not> have_pointer
                        then Inr ([PointerRelease p], st\<lparr>wl_pointer := None\<rparr>)
                        else Inr ([], st)
            | None \<Rightarrow> Inr ([], st)))"

definition seat_keyboard_part :: "headers \<Rightarrow> client_state \<Rightarrow> u32 \<Rightarrow> addr option
    \<Rightarrow> fault + (request list \<times> client_state)" where
  "seat_keyboard_part H st capabilities new_keyboard =
     (let have_keyboard = (capabilities AND WL_SEAT_CAPABILITY_KEYBOARD H \<noteq> 0) in
      if have_keyboard \<and> wl_keyboard st = None
      then (case new_keyboard of
              None \<Rightarrow> Inl NullPointer
            | Some k \<Rightarrow> Inr ([SeatGetKeyboard, KeyboardAddListener k], st\<lparr>wl_keyboard := Some k\<rparr>))
      else (case wl_keyboard st of
              Some k \<Rightarrow> if \<not> have_keyboard
                        then Inr ([KeyboardRelease k], st\<lparr>wl_keyboard := None\<rparr>)
                        else Inr ([], st)
            | None \<Rightarrow> Inr ([], st)))"

definition wl_seat_capabilities :: "headers \<Rightarrow> client_state \<Rightarrow> u32 \<Rightarrow> addr option \<Rightarrow> addr option
    \<Rightarrow> fault + (request list \<times> client_state)" where
  "wl_seat_capabilities H st capabilities new_pointer new_keyboard =
     (case seat_pointer_part H st capabilities new_pointer of
        Inl e \<Rightarrow> Inl e
      | Inr (rs1, st1) \<Rightarrow>
          (case seat_keyboard_part H st1 capabilities new_keyboard of
             Inl e \<Rightarrow> Inl e
           | Inr (rs2, st2) \<Rightarrow> Inr (rs1 @ rs2, st2)))"

section \<open>The keymap library and the operating system\<close>

text \<open>
  libxkbcommon is not part of the repository. Its pure part is a parameter of the model:
  what a keymap text compiles to (\<open>None\<close> when \<^verbatim>\<open>xkb_keymap_new_from_string\<close> returns
  \<^verbatim>\<open>NULL\<close>), and what a compiled keymap resolves a key code to under given modifiers.
  Its objects live in a store of reference-counted cells, and the functions below
  follow the library's interface: a new object starts with one reference, a state holds
  a reference to its keymap, \<^verbatim>\<open>unref\<close> of \<^verbatim>\<open>NULL\<close> does nothing, an object whose last
  reference is dropped is freed, and every other function dereferences the object it is
  given.
\<close>

record mods =
  depressed_mods :: u32
  latched_mods :: u32
  locked_mods :: u32
  depressed_layout :: u32
  latched_layout :: u32
  locked_layout :: u32

definition zero_mods :: mods where
  "zero_mods = \<lparr>depressed_mods = 0, latched_mods = 0, locked_mods = 0,
     depressed_layout = 0, latched_layout = 0, locked_layout = 0\<rparr>"

record 'km xkb_library =
  compile_keymap :: "string \<Rightarrow> 'km option"
  key_syms :: "'km \<Rightarrow> mods \<Rightarrow> u32 \<Rightarrow> u32 list"
  key_one_sym :: "'km \<Rightarrow> mods \<Rightarrow> u32 \<Rightarrow> u32"
  key_utf8 :: "'km \<Rightarrow> mods \<Rightarrow> u32 \<Rightarrow> nat \<Rightarrow> string"
  keysym_name :: "u32 \<Rightarrow> nat \<Rightarrow> string"

text \<open>One call of \<^verbatim>\<open>printf\<close> or \<^verbatim>\<open>fprintf\<close>: the format and the arguments.\<close>

datatype arg = AStr string | AInt u32

datatype printf = Printf string "arg list"

text \<open>
  Everything outside the program's own structure that a handler changes: the open file
  descriptors, the number of live mappings, the two output streams, and the library's
  keymaps (content and reference count) and states (keymap, modifiers, reference count).
\<close>

record 'km world =
  open_fds :: "int set"
  live_maps :: int
  std_out :: "printf list"
  std_err :: "printf list"
  keymap_objs :: "addr \<rightharpoonup> ('km \<times> int)"
  state_objs :: "addr \<rightharpoonup> (addr \<times> mods \<times> int)"
  next_addr :: addr

definition oprint :: "'km world \<Rightarrow> printf \<Rightarrow> 'km world" where
  "oprint w p = w\<lparr>std_out := std_out w @ [p]\<rparr>"

definition eprint :: "'km world \<Rightarrow> printf \<Rightarrow> 'km world" where
  "eprint w p = w\<lparr>std_err := std_err w @ [p]\<rparr>"

definition close_fd :: "'km world \<Rightarrow> int \<Rightarrow> 'km world" where
  "close_fd w fd = w\<lparr>open_fds := open_fds w - {fd}\<rparr>"

definition mapped_in :: "'km world \<Rightarrow> 'km world" where
  "mapped_in w = w\<lparr>live_maps := live_maps w + 1\<rparr>"

definition munmap :: "'km world \<Rightarrow> 'km world" where
  "munmap w = w\<lparr>live_maps := live_maps w - 1\<rparr>"

definition xkb_keymap_new_from_string :: "'km xkb_library \<Rightarrow> 'km world \<Rightarrow> addr option \<Rightarrow> string
    \<Rightarrow> fault + (addr option \<times> 'km world)" where
  "xkb_keymap_new_from_string L w ctx str =
     (case ctx of
        None \<Rightarrow> Inl NullPointer
      | Some c \<Rightarrow>
          (case compile_keymap L str of
             None \<Rightarrow> Inr (None, w)
           | Some km \<Rightarrow>
               Inr (Some (next_addr w),
                    w\<lparr>keymap_objs := (keymap_objs w)(next_addr w \<mapsto> (km, 1)),
                      next_addr := next_addr w + 1\<rparr>)))"

definition xkb_keymap_unref :: "'km world \<Rightarrow> addr option \<Rightarrow> fault + 'km world" where
  "xkb_keymap_unref w p =
     (case p of
        None \<Rightarrow> Inr w
      | Some k \<Rightarrow>
          (case keymap_objs w k of
             None \<Rightarrow> Inl UseAfterFree
           | Some (km, rc) \<Rightarrow>
               Inr (w\<lparr>keymap_objs := (keymap_objs w)
                      (k := if rc \<le> 1 then None else Some (km, rc - 1))\<rparr>)))"

definition xkb_state_unref :: "'km world \<Rightarrow> addr option \<Rightarrow> fault + 'km world" where
  "xkb_state_unref w p =
     (case p of
        None \<Rightarrow> Inr w
      | Some s \<Rightarrow>
          (case state_objs w s of
             None \<Rightarrow> Inl UseAfterFree
           | Some (k, m, rc) \<Rightarrow>
               if rc \<le> 1
               then xkb_keymap_unref (w\<lparr>state_objs := (state_objs w)(s := None)\<rparr>) (Some k)
               else Inr (w\<lparr>state_objs := (state_objs w)(s \<mapsto> (k, m, rc - 1))\<rparr>)))"

text \<open>\<open>alloc_ok\<close> says whether the allocation inside \<^verbatim>\<open>xkb_state_new\<close> succeeds.\<close>

definition xkb_state_new :: "'km world \<Rightarrow> addr option \<Rightarrow> bool \<Rightarrow> fault + (addr option \<times> 'km world)" where
  "xkb_state_new w p alloc_ok =
     (if \<not> alloc_ok then Inr (None, w)
      else case p of
        None \<Rightarrow> Inl NullPointer
      | Some k \<Rightarrow>
          (case keymap_objs w k of
             None \<Rightarrow> Inl UseAfterFree
           | Some (km, rc) \<Rightarrow>
               Inr (Some (next_addr w),
                    w\<lparr>keymap_objs := (keymap_objs w)(k \<mapsto> (km, rc + 1)),
                      state_objs := (state_objs w)(next_addr w \<mapsto> (k, zero_mods, 1)),
                      next_addr := next_addr w + 1\<rparr>)))"

definition xkb_state_update_mask :: "'km world \<Rightarrow> addr option \<Rightarrow> mods \<Rightarrow> fault + 'km world" where
  "xkb_state_update_mask w p m =
     (case p of
        None \<Rightarrow> Inl NullPointer
      | Some s \<Rightarrow>
          (case state_objs w s of
             None \<Rightarrow> Inl UseAfterFree
           | Some (k, m0, rc) \<Rightarrow> Inr (w\<lparr>state_objs := (state_objs w)(s \<mapsto> (k, m, rc))\<rparr>)))"

text \<open>The keymap and modifiers a state pointer leads to, which every query reads.\<close>

definition state_view :: "'km world \<Rightarrow> addr option \<Rightarrow> fault + ('km \<times> mods)" where
  "state_view w p =
     (case p of
        None \<Rightarrow> Inl NullPointer
      | Some s \<Rightarrow>
          (case state_objs w s of
             None \<Rightarrow> Inl UseAfterFree
           | Some (k, m, rc) \<Rightarrow>
               (case keymap_objs w k of
                  None \<Rightarrow> Inl UseAfterFree
                | Some (km, rck) \<Rightarrow> Inr (km, m))))"

definition xkb_state_key_get_syms :: "'km xkb_library \<Rightarrow> 'km world \<Rightarrow> addr option \<Rightarrow> u32
    \<Rightarrow> fault + u32 list" where
  "xkb_state_key_get_syms L w p keycode =
     (case state_view w p of Inl e \<Rightarrow> Inl e | Inr (km, m) \<Rightarrow> Inr (key_syms L km m keycode))"

definition xkb_state_key_get_one_sym :: "'km xkb_library \<Rightarrow> 'km world \<Rightarrow> addr option \<Rightarrow> u32
    \<Rightarrow> fault + u32" where
  "xkb_state_key_get_one_sym L w p keycode =
     (case state_view w p of Inl e \<Rightarrow> Inl e | Inr (km, m) \<Rightarrow> Inr (key_one_sym L km m keycode))"

definition xkb_state_key_get_utf8 :: "'km xkb_library \<Rightarrow> 'km world \<Rightarrow> addr option \<Rightarrow> u32 \<Rightarrow> nat
    \<Rightarrow> fault + string" where
  "xkb_state_key_get_utf8 L w p keycode size' =
     (case state_view w p of Inl e \<Rightarrow> Inl e | Inr (km, m) \<Rightarrow> Inr (key_utf8 L km m keycode size'))"

section \<open>The keyboard of waylandbook.example.c\<close>

text \<open>
  \<open>mapped\<close> is the result of the \<^verbatim>\<open>mmap\<close> call: the text of the keymap, or \<open>None\<close> for
  \<^verbatim>\<open>MAP_FAILED\<close>. The two \<^verbatim>\<open>assert\<close>s are compiled in (no \<^verbatim>\<open>NDEBUG\<close>).
\<close>

definition wl_keyboard_keymap :: "headers \<Rightarrow> 'km xkb_library \<Rightarrow> client_state \<times> 'km world
    \<Rightarrow> u32 \<Rightarrow> int \<Rightarrow> u32 \<Rightarrow> string option \<Rightarrow> bool \<Rightarrow> fault + (client_state \<times> 'km world)" where
  "wl_keyboard_keymap H L cw format fd size' mapped alloc_ok =
     (let cs = fst cw; w = snd cw in
      if format \<noteq> WL_KEYBOARD_KEYMAP_FORMAT_XKB_V1 H then Inl AssertionFailed
      else case mapped of
        None \<Rightarrow> Inl AssertionFailed
      | Some map_shm \<Rightarrow>
          (case xkb_keymap_new_from_string L (mapped_in w) (xkb_context cs) map_shm of
             Inl e \<Rightarrow> Inl e
           | Inr (new_keymap, w1) \<Rightarrow>
               (case xkb_state_new (close_fd (munmap w1) fd) new_keymap alloc_ok of
                  Inl e \<Rightarrow> Inl e
                | Inr (new_state, w2) \<Rightarrow>
                    (case xkb_keymap_unref w2 (xkb_keymap cs) of
                       Inl e \<Rightarrow> Inl e
                     | Inr w3 \<Rightarrow>
                         (case xkb_state_unref w3 (xkb_state cs) of
                            Inl e \<Rightarrow> Inl e
                          | Inr w4 \<Rightarrow>
                              Inr (cs\<lparr>xkb_keymap := new_keymap, xkb_state := new_state\<rparr>,
                                   w4))))))"

definition wl_keyboard_key :: "headers \<Rightarrow> 'km xkb_library \<Rightarrow> client_state \<times> 'km world
    \<Rightarrow> u32 \<Rightarrow> u32 \<Rightarrow> u32 \<Rightarrow> u32 \<Rightarrow> fault + (client_state \<times> 'km world)" where
  "wl_keyboard_key H L cw serial' time' key st =
     (let cs = fst cw; w = snd cw; keycode = key + 8 in
      case xkb_state_key_get_one_sym L w (xkb_state cs) keycode of
        Inl e \<Rightarrow> Inl e
      | Inr keysym \<Rightarrow>
          (let action = (if st = WL_KEYBOARD_KEY_STATE_PRESSED H then ''press'' else ''release'');
               w1 = eprint w (Printf ''[DEBUG] key %s: sym: %-12s (%d), ''
                                [AStr action, AStr (keysym_name L keysym 128), AInt keysym])
           in case xkb_state_key_get_utf8 L w1 (xkb_state cs) keycode 128 of
                Inl e \<Rightarrow> Inl e
              | Inr buf \<Rightarrow>
                  Inr (cs, eprint w1 (Printf (''[DEBUG] utf8: '' @ [CHR 0x27] @ ''%s''
                                        @ [CHR 0x27] @ ''\<newline>'') [AStr buf]))))"

definition wl_keyboard_modifiers :: "client_state \<times> 'km world
    \<Rightarrow> u32 \<Rightarrow> u32 \<Rightarrow> u32 \<Rightarrow> u32 \<Rightarrow> u32 \<Rightarrow> fault + (client_state \<times> 'km world)" where
  "wl_keyboard_modifiers cw serial' mods_depressed mods_latched mods_locked group' =
     (case xkb_state_update_mask (snd cw) (xkb_state (fst cw))
             \<lparr>depressed_mods = mods_depressed, latched_mods = mods_latched,
              locked_mods = mods_locked, depressed_layout = 0, latched_layout = 0,
              locked_layout = group'\<rparr> of
        Inl e \<Rightarrow> Inl e
      | Inr w' \<Rightarrow> Inr (fst cw, w'))"

section \<open>The keyboard of gettext.c\<close>

text \<open>
  \<^verbatim>\<open>struct globals\<close>, without the display, registry, seat and device proxies, which the
  keyboard listener does not read.
\<close>

record globals =
  error :: bool
  xkb_context :: "addr option"
  keymap :: "addr option"
  xkb_state :: "addr option"
  focused_surface :: "addr option"

definition errorOccurred :: "globals \<Rightarrow> globals" where
  "errorOccurred g = g\<lparr>error := True\<rparr>"

text \<open>
  The second half of \<^verbatim>\<open>keyboard_handle_keymap\<close>, from the comment ``Replace the old
  keymap and state if they exist'' on: \<open>k\<close> is the keymap just compiled.
\<close>

definition replace_keymap :: "globals \<Rightarrow> 'km world \<Rightarrow> addr \<Rightarrow> bool
    \<Rightarrow> fault + (globals \<times> 'km world)" where
  "replace_keymap g w2 k alloc_ok =
     (case (if xkb_state g \<noteq> None then xkb_state_unref w2 (xkb_state g) else Inr w2) of
        Inl e \<Rightarrow> Inl e
      | Inr w3 \<Rightarrow>
          (case (if keymap g \<noteq> None then xkb_keymap_unref w3 (keymap g) else Inr w3) of
             Inl e \<Rightarrow> Inl e
           | Inr w4 \<Rightarrow>
               (case xkb_state_new w4 (Some k) alloc_ok of
                  Inl e \<Rightarrow> Inl e
                | Inr (new_state, w5) \<Rightarrow>
                    if new_state = None
                    then Inr (errorOccurred (g\<lparr>keymap := Some k, xkb_state := new_state\<rparr>),
                              eprint w5 (Printf ''Failed to create XKB state\<newline>'' []))
                    else Inr (g\<lparr>keymap := Some k, xkb_state := new_state\<rparr>, w5))))"

text \<open>
  \<open>mapped\<close> is the result of the \<^verbatim>\<open>mmap\<close> call: the text of the keymap, or \<open>None\<close> for
  \<^verbatim>\<open>MAP_FAILED\<close>.
\<close>

definition keyboard_handle_keymap :: "'km xkb_library \<Rightarrow> globals \<times> 'km world
    \<Rightarrow> u32 \<Rightarrow> int \<Rightarrow> u32 \<Rightarrow> string option \<Rightarrow> bool \<Rightarrow> fault + (globals \<times> 'km world)" where
  "keyboard_handle_keymap L gw format fd size' mapped alloc_ok =
     (case mapped of
        None \<Rightarrow>
          Inr (fst gw, close_fd (eprint (snd gw) (Printf ''Failed to mmap keymap\<newline>'' [])) fd)
      | Some keymap_string \<Rightarrow>
          (case xkb_keymap_new_from_string L (mapped_in (snd gw)) (xkb_context (fst gw))
                  keymap_string of
             Inl e \<Rightarrow> Inl e
           | Inr (new_keymap, w1) \<Rightarrow>
               (case new_keymap of
                  None \<Rightarrow>
                    Inr (errorOccurred (fst gw),
                         eprint (close_fd (munmap w1) fd)
                           (Printf ''Failed to compile keymap\<newline>'' []))
                | Some k \<Rightarrow> replace_keymap (fst gw) (close_fd (munmap w1) fd) k alloc_ok)))"

definition keyboard_handle_key :: "headers \<Rightarrow> 'km xkb_library \<Rightarrow> globals \<times> 'km world
    \<Rightarrow> u32 \<Rightarrow> u32 \<Rightarrow> u32 \<Rightarrow> u32 \<Rightarrow> fault + (globals \<times> 'km world)" where
  "keyboard_handle_key H L gw serial' time' key st =
     (let g = fst gw; w = snd gw; keycode = key + 8 in
      case xkb_state_key_get_syms L w (xkb_state g) keycode of
        Inl e \<Rightarrow> Inl e
      | Inr syms \<Rightarrow>
          if 0 < length syms
          then (if syms ! 0 = XKB_KEY_BackSpace H
                then (if st = WL_KEYBOARD_KEY_STATE_PRESSED H
                      then Inr (g, oprint w (Printf ''Backspace pressed\<newline>'' []))
                      else Inr (g, oprint w (Printf ''Backspace released\<newline>'' [])))
                else Inr (g, oprint w (Printf ''Key %s %s\<newline>''
                       [AStr (keysym_name L (syms ! 0) 64),
                        AStr (if st = WL_KEYBOARD_KEY_STATE_PRESSED H
                              then ''pressed'' else ''released'')])))
          else Inr (g, w))"

definition keyboard_handle_enter :: "globals \<times> 'km world \<Rightarrow> u32 \<Rightarrow> addr option
    \<Rightarrow> globals \<times> 'km world" where
  "keyboard_handle_enter gw serial' surface =
     ((fst gw)\<lparr>focused_surface := surface\<rparr>,
      oprint (snd gw) (Printf ''Keyboard entered a surface\<newline>'' []))"

definition keyboard_handle_leave :: "globals \<times> 'km world \<Rightarrow> u32 \<Rightarrow> addr option
    \<Rightarrow> globals \<times> 'km world" where
  "keyboard_handle_leave gw serial' surface =
     ((fst gw)\<lparr>focused_surface := None\<rparr>,
      oprint (snd gw) (Printf ''Keyboard left a surface\<newline>'' []))"

definition keyboard_handle_modifiers :: "globals \<times> 'km world
    \<Rightarrow> u32 \<Rightarrow> u32 \<Rightarrow> u32 \<Rightarrow> u32 \<Rightarrow> u32 \<Rightarrow> fault + (globals \<times> 'km world)" where
  "keyboard_handle_modifiers gw serial' mods_depressed mods_latched mods_locked group' =
     (case xkb_state_update_mask (snd gw) (xkb_state (fst gw))
             \<lparr>depressed_mods = mods_depressed, latched_mods = mods_latched,
              locked_mods = mods_locked, depressed_layout = 0, latched_layout = 0,
              locked_layout = group'\<rparr> of
        Inl e \<Rightarrow> Inl e
      | Inr w' \<Rightarrow> Inr (fst gw, w'))"

subsection \<open>The event loop of gettext.c\<close>

text \<open>
  The events of \<^verbatim>\<open>keyboard_listener\<close>. A keymap event carries, besides its arguments,
  what the operating system and the allocator will answer during the handler: the
  result of \<^verbatim>\<open>mmap\<close> and whether \<^verbatim>\<open>xkb_state_new\<close> can allocate.
\<close>

datatype kb_event =
    EvKeymap u32 int u32 "string option" bool
  | EvEnter u32 "addr option"
  | EvLeave u32 "addr option"
  | EvKey u32 u32 u32 u32
  | EvModifiers u32 u32 u32 u32 u32

fun dispatch_event :: "headers \<Rightarrow> 'km xkb_library \<Rightarrow> globals \<times> 'km world \<Rightarrow> kb_event
    \<Rightarrow> fault + (globals \<times> 'km world)" where
  "dispatch_event H L gw (EvKeymap format fd size' mapped alloc_ok) =
     keyboard_handle_keymap L gw format fd size' mapped alloc_ok"
| "dispatch_event H L gw (EvEnter serial' surface) = Inr (keyboard_handle_enter gw serial' surface)"
| "dispatch_event H L gw (EvLeave serial' surface) = Inr (keyboard_handle_leave gw serial' surface)"
| "dispatch_event H L gw (EvKey serial' time' key st) = keyboard_handle_key H L gw serial' time' key st"
| "dispatch_event H L gw (EvModifiers serial' d la lo group') =
     keyboard_handle_modifiers gw serial' d la lo group'"

fun dispatch_events :: "headers \<Rightarrow> 'km xkb_library \<Rightarrow> globals \<times> 'km world \<Rightarrow> kb_event list
    \<Rightarrow> fault + (globals \<times> 'km world)" where
  "dispatch_events H L gw [] = Inr gw"
| "dispatch_events H L gw (e # es) =
     (case dispatch_event H L gw e of
        Inl f \<Rightarrow> Inl f
      | Inr gw' \<Rightarrow> dispatch_events H L gw' es)"


text \<open>
  One call of \<^verbatim>\<open>wl_display_dispatch\<close> either fails (\<open>-1\<close>) or hands a batch of events to
  the listeners. The loop of \<^verbatim>\<open>main\<close> runs over the calls the transport will answer;
  when they are used up the program is still inside the loop, waiting in the next call.
  Once the loop is left, \<^verbatim>\<open>main\<close> releases the state and the keymap and returns 0.
\<close>

datatype dispatch = DispatchFailed | Dispatched "kb_event list"

datatype 'a progress = Waiting 'a | Returned int 'a

definition cleanup :: "globals \<times> 'km world \<Rightarrow> fault + (globals \<times> 'km world)" where
  "cleanup gw =
     (let g = fst gw; w = snd gw in
      case (if xkb_state g \<noteq> None then xkb_state_unref w (xkb_state g) else Inr w) of
        Inl e \<Rightarrow> Inl e
      | Inr w1 \<Rightarrow>
          (case (if keymap g \<noteq> None then xkb_keymap_unref w1 (keymap g) else Inr w1) of
             Inl e \<Rightarrow> Inl e
           | Inr w2 \<Rightarrow> Inr (g, w2)))"

definition leave_loop :: "globals \<times> 'km world \<Rightarrow> fault + (globals \<times> 'km world) progress" where
  "leave_loop gw = (case cleanup gw of Inl e \<Rightarrow> Inl e | Inr gw' \<Rightarrow> Inr (Returned 0 gw'))"

fun main_loop :: "headers \<Rightarrow> 'km xkb_library \<Rightarrow> globals \<times> 'km world \<Rightarrow> dispatch list
    \<Rightarrow> fault + (globals \<times> 'km world) progress" where
  "main_loop H L gw [] = Inr (Waiting gw)"
| "main_loop H L gw (DispatchFailed # ds) = leave_loop gw"
| "main_loop H L gw (Dispatched es # ds) =
     (case dispatch_events H L gw es of
        Inl f \<Rightarrow> Inl f
      | Inr gw' \<Rightarrow> if error (fst gw') then leave_loop gw' else main_loop H L gw' ds)"

text \<open>What a key event prints: the lines \<^verbatim>\<open>keyboard_handle_key\<close> adds to the output.\<close>

definition key_report :: "headers \<Rightarrow> 'km xkb_library \<Rightarrow> globals \<times> 'km world \<Rightarrow> u32 \<Rightarrow> u32
    \<Rightarrow> fault + printf list" where
  "key_report H L gw key st =
     (case keyboard_handle_key H L gw 0 0 key st of
        Inl e \<Rightarrow> Inl e
      | Inr gw' \<Rightarrow> Inr (drop (length (std_out (snd gw))) (std_out (snd gw'))))"

subsection \<open>The installed pair\<close>

text \<open>
  What it means for the keymap and state pointers of \<^verbatim>\<open>struct globals\<close> to be sound.
  Without a keymap there is no state. A keymap pointer leads to a live keymap object
  on which \<^verbatim>\<open>globals\<close> holds a reference; a state pointer leads to a live state object
  that was built from exactly that keymap and holds its own reference on it. So neither
  pointer dangles, and the state never outlives the keymap it reads.
\<close>

definition pair_consistent :: "globals \<times> 'km world \<Rightarrow> bool" where
  "pair_consistent gw =
     (case keymap (fst gw) of
        None \<Rightarrow> xkb_state (fst gw) = None
      | Some k \<Rightarrow>
          (case keymap_objs (snd gw) k of
             None \<Rightarrow> False
           | Some (km, rc) \<Rightarrow>
               (case xkb_state (fst gw) of
                  None \<Rightarrow> 1 \<le> rc
                | Some s \<Rightarrow>
                    (case state_objs (snd gw) s of
                       None \<Rightarrow> False
                     | Some (k', m, rcs) \<Rightarrow> k' = k \<and> 1 \<le> rcs \<and> 2 \<le> rc))))"

text \<open>The allocator hands out addresses from \<open>next_addr\<close> on; none of them is in use.\<close>

definition fresh :: "'km world \<Rightarrow> bool" where
  "fresh w = (\<forall>a. next_addr w \<le> a \<longrightarrow> keymap_objs w a = None \<and> state_objs w a = None)"

section \<open>A small keymap for examples\<close>

text \<open>
  A library whose only keymap text is \<open>good_keymap\<close>. Compiled keymaps are numbers. In
  this keymap the key code 38 (the hardware code 30 of the key A, plus 8) carries the
  symbol \<open>a\<close> (0x61) and 22 (hardware code 14, plus 8) carries BackSpace (0xff08); no
  other code carries a symbol.
\<close>

definition good_keymap :: string where
  "good_keymap = ''xkb_keymap { us }''"

definition demo_library :: "int xkb_library" where
  "demo_library =
     \<lparr>compile_keymap = (\<lambda>s. if s = good_keymap then Some 1 else None),
      key_syms = (\<lambda>km m kc. if kc = 38 then [0x61] else if kc = 22 then [0xff08] else []),
      key_one_sym = (\<lambda>km m kc. if kc = 38 then 0x61 else 0),
      key_utf8 = (\<lambda>km m kc n. if kc = 38 then ''a'' else []),
      keysym_name = (\<lambda>s n. if s = 0x61 then ''a'' else ''NoSymbol'')\<rparr>"

text \<open>
  The program after start-up (\<^verbatim>\<open>struct globals globals = {0}\<close>, the context created,
  descriptor 3 about to arrive with a keymap), and after the keymap \<open>good_keymap\<close> has
  been installed from descriptor 3.
\<close>

definition demo_world :: "int world" where
  "demo_world = \<lparr>open_fds = {3}, live_maps = 0, std_out = [], std_err = [],
     keymap_objs = Map.empty, state_objs = Map.empty, next_addr = 1\<rparr>"

definition demo_globals :: globals where
  "demo_globals = \<lparr>error = False, xkb_context = Some 0, keymap = None, xkb_state = None,
     focused_surface = None\<rparr>"

definition ready_world :: "int world" where
  "ready_world = \<lparr>open_fds = {}, live_maps = 0, std_out = [], std_err = [],
     keymap_objs = [1 \<mapsto> (1, 2)], state_objs = [2 \<mapsto> (1, zero_mods, 1)], next_addr = 3\<rparr>"

definition ready_globals :: globals where
  "ready_globals = \<lparr>error = False, xkb_context = Some 0, keymap = Some 1, xkb_state = Some 2,
     focused_surface = None\<rparr>"

definition ready_client :: client_state where
  "ready_client = \<lparr>wl_keyboard = Some 10, wl_pointer = None, client_state.xkb_state = Some 2,
     client_state.xkb_context = Some 0, xkb_keymap = Some 1\<rparr>"

text \<open>The fields of the world that the keymap library does not own.\<close>

definition os_part :: "'km world \<Rightarrow> int set \<times> int \<times> printf list \<times> printf list" where
  "os_part w = (open_fds w, live_maps w, std_out w, std_err w)"

text \<open>
  A library that answers as \<open>demo_library\<close> does for the key code 38 and differently
  for every other key code.
\<close>

definition other_library :: "int xkb_library" where
  "other_library = demo_library
     \<lparr>key_syms := (\<lambda>km m kc. if kc = 38 then [0x61] else [0x62]),
      key_one_sym := (\<lambda>km m kc. if kc = 38 then 0x61 else 0x62),
      key_utf8 := (\<lambda>km m kc n. if kc = 38 then ''a'' else ''b'')\<rparr>"

definition demo_client :: client_state where
  "demo_client = \<lparr>wl_keyboard = Some 10, wl_pointer = None, client_state.xkb_state = None,
     client_state.xkb_context = Some 0, xkb_keymap = None\<rparr>"

section \<open>Properties of the pointer frame\<close>

subsection \<open>The mask\<close>

lemma mask_test_bit: "(m :: u32) AND push_bit n 1 \<noteq> 0 \<longleftrightarrow> bit m n"
  by (simp add: bit_iff_and_push_bit_not_eq_0)

lemma bit_single: "bit (push_bit k 1 :: u32) n \<longleftrightarrow> n = k \<and> k < 32"
  by (auto simp add: bit_simps)

lemmas mask_defs = POINTER_EVENT_ENTER_def POINTER_EVENT_LEAVE_def POINTER_EVENT_MOTION_def
  POINTER_EVENT_BUTTON_def POINTER_EVENT_AXIS_def POINTER_EVENT_AXIS_SOURCE_def
  POINTER_EVENT_AXIS_STOP_def POINTER_EVENT_AXIS_DISCRETE_def

lemmas handler_defs = wl_pointer_enter_def wl_pointer_leave_def wl_pointer_motion_def
  wl_pointer_button_def wl_pointer_axis_def wl_pointer_axis_source_def
  wl_pointer_axis_stop_def wl_pointer_axis_discrete_def

lemma mask_bits:
  "bit POINTER_EVENT_ENTER n \<longleftrightarrow> n = 0"
  "bit POINTER_EVENT_LEAVE n \<longleftrightarrow> n = 1"
  "bit POINTER_EVENT_MOTION n \<longleftrightarrow> n = 2"
  "bit POINTER_EVENT_BUTTON n \<longleftrightarrow> n = 3"
  "bit POINTER_EVENT_AXIS n \<longleftrightarrow> n = 4"
  "bit POINTER_EVENT_AXIS_SOURCE n \<longleftrightarrow> n = 5"
  "bit POINTER_EVENT_AXIS_STOP n \<longleftrightarrow> n = 6"
  "bit POINTER_EVENT_AXIS_DISCRETE n \<longleftrightarrow> n = 7"
  unfolding mask_defs bit_single by simp_all

lemma mask_tests:
  "m AND POINTER_EVENT_ENTER \<noteq> 0 \<longleftrightarrow> bit m 0"
  "m AND POINTER_EVENT_LEAVE \<noteq> 0 \<longleftrightarrow> bit m 1"
  "m AND POINTER_EVENT_MOTION \<noteq> 0 \<longleftrightarrow> bit m 2"
  "m AND POINTER_EVENT_BUTTON \<noteq> 0 \<longleftrightarrow> bit m 3"
  "m AND POINTER_EVENT_AXIS \<noteq> 0 \<longleftrightarrow> bit m 4"
  "m AND POINTER_EVENT_AXIS_SOURCE \<noteq> 0 \<longleftrightarrow> bit m 5"
  "m AND POINTER_EVENT_AXIS_STOP \<noteq> 0 \<longleftrightarrow> bit m 6"
  "m AND POINTER_EVENT_AXIS_DISCRETE \<noteq> 0 \<longleftrightarrow> bit m 7"
  unfolding mask_defs mask_test_bit by (rule refl)+

lemma mask_tests0:
  "m AND POINTER_EVENT_ENTER = 0 \<longleftrightarrow> \<not> bit m 0"
  "m AND POINTER_EVENT_LEAVE = 0 \<longleftrightarrow> \<not> bit m 1"
  "m AND POINTER_EVENT_MOTION = 0 \<longleftrightarrow> \<not> bit m 2"
  "m AND POINTER_EVENT_BUTTON = 0 \<longleftrightarrow> \<not> bit m 3"
  "m AND POINTER_EVENT_AXIS = 0 \<longleftrightarrow> \<not> bit m 4"
  "m AND POINTER_EVENT_AXIS_SOURCE = 0 \<longleftrightarrow> \<not> bit m 5"
  "m AND POINTER_EVENT_AXIS_STOP = 0 \<longleftrightarrow> \<not> bit m 6"
  "m AND POINTER_EVENT_AXIS_DISCRETE = 0 \<longleftrightarrow> \<not> bit m 7"
  using mask_tests [of m] by blast+

lemma axis_events_test:
  "m AND axis_events = 0 \<longleftrightarrow> \<not> (bit m 4 \<or> bit m 5 \<or> bit m 6 \<or> bit m 7)"
  by (simp add: axis_events_def bit.conj_disj_distrib or_eq_0_iff mask_tests0)

lemma apply_fragment_bit:
  "apply_fragment ev f = Inr ev' \<Longrightarrow>
     bit (event_mask ev') n \<longleftrightarrow> bit (event_mask ev) n \<or> n = kind_bit f"
  by (cases f) (auto simp add: handler_defs bit_or_iff mask_bits split: if_splits)

lemma run_fragments_bit:
  "run_fragments ev fs = Inr ev' \<Longrightarrow>
     bit (event_mask ev') n \<longleftrightarrow> bit (event_mask ev) n \<or> n \<in> kind_bit ` set fs"
proof (induction fs arbitrary: ev)
  case Nil
  then show ?case by simp
next
  case (Cons f fs)
  then obtain ev1 where a: "apply_fragment ev f = Inr ev1" and r: "run_fragments ev1 fs = Inr ev'"
    by (auto split: sum.splits)
  show ?case
    using Cons.IH [OF r] apply_fragment_bit [OF a, of n] by auto
qed

lemma apply_fragment_length:
  "apply_fragment ev f = Inr ev' \<Longrightarrow> length (axes ev') = length (axes ev)"
  by (cases f) (auto simp add: handler_defs split: if_splits)

lemma apply_fragment_valid:
  "apply_fragment ev f = Inr ev' \<Longrightarrow> length (axes ev) = 2 \<Longrightarrow> i < 2 \<Longrightarrow>
     valid (axes ev' ! i) \<longleftrightarrow> valid (axes ev ! i) \<or> axis_index f = Some i"
  by (cases f) (auto simp add: handler_defs nth_list_update split: if_splits)

lemma apply_fragment_source:
  "apply_fragment ev f = Inr ev' \<Longrightarrow> fragment_in_range f \<Longrightarrow> unat (axis_source ev) < 4 \<Longrightarrow>
     unat (axis_source ev') < 4"
  by (cases f) (auto simp add: handler_defs split: if_splits)

lemma apply_fragment_total:
  "fragment_in_range f \<Longrightarrow> \<exists>ev'. apply_fragment ev f = Inr ev'"
  by (cases f) (auto simp add: handler_defs)

lemma run_fragments_length:
  "run_fragments ev fs = Inr ev' \<Longrightarrow> length (axes ev') = length (axes ev)"
proof (induction fs arbitrary: ev)
  case Nil
  then show ?case by simp
next
  case (Cons f fs)
  then obtain ev1 where a: "apply_fragment ev f = Inr ev1" and r: "run_fragments ev1 fs = Inr ev'"
    by (auto split: sum.splits)
  show ?case
    using Cons.IH [OF r] apply_fragment_length [OF a] by simp
qed

lemma run_fragments_valid:
  "run_fragments ev fs = Inr ev' \<Longrightarrow> length (axes ev) = 2 \<Longrightarrow> i < 2 \<Longrightarrow>
     valid (axes ev' ! i) \<longleftrightarrow> valid (axes ev ! i) \<or> touches_axis fs i"
proof (induction fs arbitrary: ev)
  case Nil
  then show ?case by (simp add: touches_axis_def)
next
  case (Cons f fs)
  then obtain ev1 where a: "apply_fragment ev f = Inr ev1" and r: "run_fragments ev1 fs = Inr ev'"
    by (auto split: sum.splits)
  have l1: "length (axes ev1) = 2"
    using apply_fragment_length [OF a] Cons.prems(2) by simp
  show ?case
    using Cons.IH [OF r l1 Cons.prems(3)] apply_fragment_valid [OF a Cons.prems(2,3)]
    by (auto simp add: touches_axis_def)
qed

lemma run_fragments_source:
  "run_fragments ev fs = Inr ev' \<Longrightarrow> list_all fragment_in_range fs \<Longrightarrow>
     unat (axis_source ev) < 4 \<Longrightarrow> unat (axis_source ev') < 4"
proof (induction fs arbitrary: ev)
  case Nil
  then show ?case by simp
next
  case (Cons f fs)
  then obtain ev1 where a: "apply_fragment ev f = Inr ev1" and r: "run_fragments ev1 fs = Inr ev'"
    by (auto split: sum.splits)
  show ?case
    using Cons.IH [OF r] apply_fragment_source [OF a] Cons.prems by simp
qed

lemma run_fragments_total:
  "list_all fragment_in_range fs \<Longrightarrow> \<exists>ev'. run_fragments ev fs = Inr ev'"
proof (induction fs arbitrary: ev)
  case Nil
  then show ?case by simp
next
  case (Cons f fs)
  then obtain ev1 where a: "apply_fragment ev f = Inr ev1"
    using apply_fragment_total [of f ev] by auto
  show ?case
    using Cons.IH [of ev1] Cons.prems a by simp
qed

lemma axis_report_ok:
  assumes "unat (axis_source ev) < 4"
  shows "axis_report ev i = Inr
      (if valid (axes ev ! i) then
        [PAxisName i]
        @ (if bit (event_mask ev) 4 then [PAxisValue i (axis_value (axes ev ! i))] else [])
        @ (if bit (event_mask ev) 7 then [PAxisDiscrete i (discrete (axes ev ! i))] else [])
        @ (if bit (event_mask ev) 5 then [PAxisVia i (axis_source ev)] else [])
        @ (if bit (event_mask ev) 6 then [PAxisStopped i] else [])
       else [])"
  using assms by (simp add: axis_report_def mask_tests mask_tests0)


lemma less_two: "i < (2::nat) \<longleftrightarrow> i = 0 \<or> i = 1"
  by auto

lemma frame_members:
  assumes src: "unat (axis_source ev) < 4"
  obtains out where "wl_pointer_frame H ev = Inr (out, zero_event)"
    and "\<And>x y. PEntered x y \<in> set out \<longleftrightarrow>
            bit (event_mask ev) 0 \<and> x = surface_x ev \<and> y = surface_y ev"
    and "PLeave \<in> set out \<longleftrightarrow> bit (event_mask ev) 1"
    and "\<And>x y. PMotion x y \<in> set out \<longleftrightarrow>
            bit (event_mask ev) 2 \<and> x = surface_x ev \<and> y = surface_y ev"
    and "\<And>b s. PButton b s \<in> set out \<longleftrightarrow> bit (event_mask ev) 3 \<and> b = button ev
            \<and> s = (if state ev = WL_POINTER_BUTTON_STATE_RELEASED H
                    then ''released'' else ''pressed'')"
    and "\<And>i. PAxisName i \<in> set out \<longleftrightarrow> i < 2 \<and> valid (axes ev ! i)
            \<and> (bit (event_mask ev) 4 \<or> bit (event_mask ev) 5
                \<or> bit (event_mask ev) 6 \<or> bit (event_mask ev) 7)"
    and "\<And>i v. PAxisValue i v \<in> set out \<longleftrightarrow> i < 2 \<and> valid (axes ev ! i)
            \<and> bit (event_mask ev) 4 \<and> v = axis_value (axes ev ! i)"
    and "\<And>i d. PAxisDiscrete i d \<in> set out \<longleftrightarrow> i < 2 \<and> valid (axes ev ! i)
            \<and> bit (event_mask ev) 7 \<and> d = discrete (axes ev ! i)"
    and "\<And>i s. PAxisVia i s \<in> set out \<longleftrightarrow> i < 2 \<and> valid (axes ev ! i)
            \<and> bit (event_mask ev) 5 \<and> s = axis_source ev"
    and "\<And>i. PAxisStopped i \<in> set out \<longleftrightarrow> i < 2 \<and> valid (axes ev ! i)
            \<and> bit (event_mask ev) 6"
proof -
  have "\<exists>ax. axes_report ev = Inr ax"
    by (simp add: axes_report_def axis_report_ok [OF src])
  then obtain ax where ax: "axes_report ev = Inr ax" ..
  have ax_eq: "ax = (if bit (event_mask ev) 4 \<or> bit (event_mask ev) 5
                 \<or> bit (event_mask ev) 6 \<or> bit (event_mask ev) 7
               then projr (axis_report ev 0) @ projr (axis_report ev 1) else [])"
    using ax by (simp add: axes_report_def axis_report_ok [OF src] axis_events_test
        split: if_splits)
  define out where "out = [PFrameAt (time ev)]
            @ (if event_mask ev AND POINTER_EVENT_ENTER \<noteq> 0
               then [PEntered (surface_x ev) (surface_y ev)] else [])
            @ (if event_mask ev AND POINTER_EVENT_LEAVE \<noteq> 0 then [PLeave] else [])
            @ (if event_mask ev AND POINTER_EVENT_MOTION \<noteq> 0
               then [PMotion (surface_x ev) (surface_y ev)] else [])
            @ (if event_mask ev AND POINTER_EVENT_BUTTON \<noteq> 0
               then [PButton (button ev)
                      (if state ev = WL_POINTER_BUTTON_STATE_RELEASED H
                       then ''released'' else ''pressed'')] else [])
            @ ax @ [PNewline]"
  have fr: "wl_pointer_frame H ev = Inr (out, zero_event)"
    by (simp add: wl_pointer_frame_def ax out_def)
  show thesis
  proof (rule that [OF fr])
    show "PEntered x y \<in> set out \<longleftrightarrow>
            bit (event_mask ev) 0 \<and> x = surface_x ev \<and> y = surface_y ev" for x y
      by (auto simp add: out_def ax_eq mask_tests mask_tests0 axis_report_ok [OF src])
    show "PLeave \<in> set out \<longleftrightarrow> bit (event_mask ev) 1"
      by (auto simp add: out_def ax_eq mask_tests mask_tests0 axis_report_ok [OF src])
    show "PMotion x y \<in> set out \<longleftrightarrow>
            bit (event_mask ev) 2 \<and> x = surface_x ev \<and> y = surface_y ev" for x y
      by (auto simp add: out_def ax_eq mask_tests mask_tests0 axis_report_ok [OF src])
    show "PButton b s \<in> set out \<longleftrightarrow> bit (event_mask ev) 3 \<and> b = button ev
            \<and> s = (if state ev = WL_POINTER_BUTTON_STATE_RELEASED H
                    then ''released'' else ''pressed'')" for b s
      by (auto simp add: out_def ax_eq mask_tests mask_tests0 axis_report_ok [OF src])
    show "PAxisName i \<in> set out \<longleftrightarrow> i < 2 \<and> valid (axes ev ! i)
            \<and> (bit (event_mask ev) 4 \<or> bit (event_mask ev) 5
                \<or> bit (event_mask ev) 6 \<or> bit (event_mask ev) 7)" for i
      by (auto simp add: out_def ax_eq mask_tests mask_tests0 axis_report_ok [OF src] less_two)
    show "PAxisValue i v \<in> set out \<longleftrightarrow> i < 2 \<and> valid (axes ev ! i)
            \<and> bit (event_mask ev) 4 \<and> v = axis_value (axes ev ! i)" for i v
      by (auto simp add: out_def ax_eq mask_tests mask_tests0 axis_report_ok [OF src] less_two)
    show "PAxisDiscrete i d \<in> set out \<longleftrightarrow> i < 2 \<and> valid (axes ev ! i)
            \<and> bit (event_mask ev) 7 \<and> d = discrete (axes ev ! i)" for i d
      by (auto simp add: out_def ax_eq mask_tests mask_tests0 axis_report_ok [OF src] less_two)
    show "PAxisVia i s \<in> set out \<longleftrightarrow> i < 2 \<and> valid (axes ev ! i)
            \<and> bit (event_mask ev) 5 \<and> s = axis_source ev" for i s
      by (auto simp add: out_def ax_eq mask_tests mask_tests0 axis_report_ok [OF src] less_two)
    show "PAxisStopped i \<in> set out \<longleftrightarrow> i < 2 \<and> valid (axes ev ! i)
            \<and> bit (event_mask ev) 6" for i
      by (auto simp add: out_def ax_eq mask_tests mask_tests0 axis_report_ok [OF src] less_two)
  qed
qed


lemma kind_bit_iff:
  "kind_bit f = 0 \<longleftrightarrow> (\<exists>s x y. f = FEnter s x y)"
  "kind_bit f = 1 \<longleftrightarrow> (\<exists>s. f = FLeave s)"
  "kind_bit f = 2 \<longleftrightarrow> (\<exists>t x y. f = FMotion t x y)"
  "kind_bit f = 3 \<longleftrightarrow> (\<exists>s t b st. f = FButton s t b st)"
  "kind_bit f = 4 \<longleftrightarrow> (\<exists>t a v. f = FAxis t a v)"
  "kind_bit f = 5 \<longleftrightarrow> (\<exists>s. f = FAxisSource s)"
  "kind_bit f = 6 \<longleftrightarrow> (\<exists>t a. f = FAxisStop t a)"
  "kind_bit f = 7 \<longleftrightarrow> (\<exists>a d. f = FAxisDiscrete a d)"
  by (cases f; simp)+

lemma kind_in_set:
  "0 \<in> kind_bit ` set fs \<longleftrightarrow> (\<exists>s x y. FEnter s x y \<in> set fs)"
  "1 \<in> kind_bit ` set fs \<longleftrightarrow> (\<exists>s. FLeave s \<in> set fs)"
  "2 \<in> kind_bit ` set fs \<longleftrightarrow> (\<exists>t x y. FMotion t x y \<in> set fs)"
  "3 \<in> kind_bit ` set fs \<longleftrightarrow> (\<exists>s t b st. FButton s t b st \<in> set fs)"
  "4 \<in> kind_bit ` set fs \<longleftrightarrow> (\<exists>t a v. FAxis t a v \<in> set fs)"
  "5 \<in> kind_bit ` set fs \<longleftrightarrow> (\<exists>s. FAxisSource s \<in> set fs)"
  "6 \<in> kind_bit ` set fs \<longleftrightarrow> (\<exists>t a. FAxisStop t a \<in> set fs)"
  "7 \<in> kind_bit ` set fs \<longleftrightarrow> (\<exists>a d. FAxisDiscrete a d \<in> set fs)"
proof -
  have e: "n \<in> kind_bit ` set fs \<longleftrightarrow> (\<exists>f \<in> set fs. kind_bit f = n)" for n
    by auto
  show "0 \<in> kind_bit ` set fs \<longleftrightarrow> (\<exists>s x y. FEnter s x y \<in> set fs)"
    unfolding e kind_bit_iff by blast
  show "1 \<in> kind_bit ` set fs \<longleftrightarrow> (\<exists>s. FLeave s \<in> set fs)"
    unfolding e kind_bit_iff by blast
  show "2 \<in> kind_bit ` set fs \<longleftrightarrow> (\<exists>t x y. FMotion t x y \<in> set fs)"
    unfolding e kind_bit_iff by blast
  show "3 \<in> kind_bit ` set fs \<longleftrightarrow> (\<exists>s t b st. FButton s t b st \<in> set fs)"
    unfolding e kind_bit_iff by blast
  show "4 \<in> kind_bit ` set fs \<longleftrightarrow> (\<exists>t a v. FAxis t a v \<in> set fs)"
    unfolding e kind_bit_iff by blast
  show "5 \<in> kind_bit ` set fs \<longleftrightarrow> (\<exists>s. FAxisSource s \<in> set fs)"
    unfolding e kind_bit_iff by blast
  show "6 \<in> kind_bit ` set fs \<longleftrightarrow> (\<exists>t a. FAxisStop t a \<in> set fs)"
    unfolding e kind_bit_iff by blast
  show "7 \<in> kind_bit ` set fs \<longleftrightarrow> (\<exists>a d. FAxisDiscrete a d \<in> set fs)"
    unfolding e kind_bit_iff by blast
qed

lemma touches_axis_range:
  assumes "list_all fragment_in_range fs" and "touches_axis fs i"
  shows "i < 2 \<and> (4 \<in> kind_bit ` set fs \<or> 6 \<in> kind_bit ` set fs \<or> 7 \<in> kind_bit ` set fs)"
proof -
  from assms(2) obtain f where f: "f \<in> set fs" "axis_index f = Some i"
    by (auto simp add: touches_axis_def)
  from assms(1) f(1) have r: "fragment_in_range f"
    by (simp add: list_all_iff)
  have "i < 2 \<and> (kind_bit f = 4 \<or> kind_bit f = 6 \<or> kind_bit f = 7)"
    using f(2) r by (cases f) auto
  then show ?thesis
    using f(1) by (metis imageI)
qed

lemma zero_event_simps:
  "event_mask zero_event = 0" "length (axes zero_event) = 2" "axis_source zero_event = 0"
  "\<not> valid (axes zero_event ! 0)" "\<not> valid (axes zero_event ! 1)"
  "\<not> valid (axes zero_event ! Suc 0)"
  by (simp_all add: zero_event_def zero_slot_def)

lemma frame_state:
  assumes rng: "list_all fragment_in_range fs"
  obtains ev where "run_fragments zero_event fs = Inr ev"
    and "length (axes ev) = 2"
    and "unat (axis_source ev) < 4"
    and "\<And>n. bit (event_mask ev) n \<longleftrightarrow> n \<in> kind_bit ` set fs"
    and "\<And>i. i < 2 \<Longrightarrow> valid (axes ev ! i) \<longleftrightarrow> touches_axis fs i"
proof -
  obtain ev where run: "run_fragments zero_event fs = Inr ev"
    using run_fragments_total [OF rng] by blast
  show thesis
  proof (rule that [OF run])
    show "length (axes ev) = 2"
      using run_fragments_length [OF run] by (simp add: zero_event_simps)
    show "unat (axis_source ev) < 4"
      using run_fragments_source [OF run rng] by (simp add: zero_event_simps)
    show "bit (event_mask ev) n \<longleftrightarrow> n \<in> kind_bit ` set fs" for n
      using run_fragments_bit [OF run, of n] by (simp add: zero_event_simps)
    show "valid (axes ev ! i) \<longleftrightarrow> touches_axis fs i" if "i < 2" for i
      using run_fragments_valid [OF run _ that] that
      by (auto simp add: zero_event_simps less_two)
  qed
qed

lemma run_fragments_append:
  "run_fragments ev (xs @ ys) =
     (case run_fragments ev xs of Inl e \<Rightarrow> Inl e | Inr ev' \<Rightarrow> run_fragments ev' ys)"
  by (induction xs arbitrary: ev) (auto split: sum.splits)

lemma apply_keeps_axis_value:
  "apply_fragment ev f = Inr ev' \<Longrightarrow> length (axes ev) = 2 \<Longrightarrow> i < 2 \<Longrightarrow>
     \<not> writes_axis_value i f \<Longrightarrow> axis_value (axes ev' ! i) = axis_value (axes ev ! i)"
  by (cases f) (auto simp add: handler_defs nth_list_update split: if_splits)

lemma run_keeps_axis_value:
  "run_fragments ev fs = Inr ev' \<Longrightarrow> length (axes ev) = 2 \<Longrightarrow> i < 2 \<Longrightarrow>
     \<not> list_ex (writes_axis_value i) fs \<Longrightarrow> axis_value (axes ev' ! i) = axis_value (axes ev ! i)"
proof (induction fs arbitrary: ev)
  case Nil
  then show ?case by simp
next
  case (Cons f fs)
  then obtain ev1 where a: "apply_fragment ev f = Inr ev1" and r: "run_fragments ev1 fs = Inr ev'"
    by (auto split: sum.splits)
  have l1: "length (axes ev1) = 2"
    using apply_fragment_length [OF a] Cons.prems(2) by simp
  show ?case
    using Cons.IH [OF r l1 Cons.prems(3)] apply_keeps_axis_value [OF a Cons.prems(2,3)] Cons.prems(4)
    by simp
qed

lemma run_last_axis_value:
  assumes run: "run_fragments ev0 (xs @ FAxis t a v # post) = Inr ev"
    and len: "length (axes ev0) = 2"
    and post: "\<not> list_ex (writes_axis_value (unat a)) post"
  shows "axis_value (axes ev ! unat a) = v"
proof -
  from run obtain e1 e2 where r1: "run_fragments ev0 xs = Inr e1"
    and a2: "wl_pointer_axis e1 t a v = Inr e2" and r3: "run_fragments e2 post = Inr ev"
    by (auto simp add: run_fragments_append split: sum.splits)
  have l1: "length (axes e1) = 2"
    using run_fragments_length [OF r1] len by simp
  from a2 have ar: "unat a < 2" and e2: "axis_value (axes e2 ! unat a) = v" and l2: "length (axes e2) = 2"
    using l1 by (auto simp add: wl_pointer_axis_def split: if_splits)
  show ?thesis
    using run_keeps_axis_value [OF r3 l2 ar post] e2 by simp
qed

lemma apply_keeps_coords:
  "apply_fragment ev f = Inr ev' \<Longrightarrow> \<not> writes_coords f \<Longrightarrow>
     surface_x ev' = surface_x ev \<and> surface_y ev' = surface_y ev"
  by (cases f) (auto simp add: handler_defs split: if_splits)

lemma run_keeps_coords:
  "run_fragments ev fs = Inr ev' \<Longrightarrow> \<not> list_ex writes_coords fs \<Longrightarrow>
     surface_x ev' = surface_x ev \<and> surface_y ev' = surface_y ev"
proof (induction fs arbitrary: ev)
  case Nil
  then show ?case by simp
next
  case (Cons f fs)
  then obtain ev1 where a: "apply_fragment ev f = Inr ev1" and r: "run_fragments ev1 fs = Inr ev'"
    by (auto split: sum.splits)
  show ?case
    using Cons.IH [OF r] apply_keeps_coords [OF a] Cons.prems(2) by simp
qed

lemma run_last_motion:
  assumes run: "run_fragments ev0 (xs @ FMotion t x y # post) = Inr ev"
    and post: "\<not> list_ex writes_coords post"
  shows "surface_x ev = x \<and> surface_y ev = y"
proof -
  from run obtain e1 where r1: "run_fragments ev0 xs = Inr e1"
    and r3: "run_fragments (wl_pointer_motion e1 t x y) post = Inr ev"
    by (auto simp add: run_fragments_append split: sum.splits)
  show ?thesis
    using run_keeps_coords [OF r3 post] by (simp add: wl_pointer_motion_def)
qed

lemma run_last_writer:
  assumes keep: "\<And>ev f ev'. apply_fragment ev f = Inr ev' \<Longrightarrow> length (axes ev) = 2 \<Longrightarrow> \<not> W f
            \<Longrightarrow> g ev' = g ev"
    and run: "run_fragments ev0 fs = Inr ev" and len: "length (axes ev0) = 2"
  shows "(\<not> list_ex W fs \<and> g ev = g ev0)
       \<or> (\<exists>xs f post e1 e2. fs = xs @ f # post \<and> W f \<and> \<not> list_ex W post
             \<and> length (axes e1) = 2 \<and> apply_fragment e1 f = Inr e2 \<and> g ev = g e2)"
  using run
proof (induction fs arbitrary: ev rule: rev_induct)
  case Nil
  then show ?case by simp
next
  case (snoc f fs)
  from snoc.prems obtain e1 where r1: "run_fragments ev0 fs = Inr e1"
    and a: "apply_fragment e1 f = Inr ev"
    by (auto simp add: run_fragments_append split: sum.splits)
  have l1: "length (axes e1) = 2"
    using run_fragments_length [OF r1] len by simp
  show ?case
  proof (cases "W f")
    case True
    have "fs @ [f] = fs @ f # [] \<and> W f \<and> \<not> list_ex W [] \<and> length (axes e1) = 2
            \<and> apply_fragment e1 f = Inr ev \<and> g ev = g ev"
      using True l1 a by simp
    then show ?thesis
      by blast
  next
    case False
    have k: "g ev = g e1"
      using keep [OF a l1 False] .
    from snoc.IH [OF r1] show ?thesis
    proof
      assume "\<not> list_ex W fs \<and> g e1 = g ev0"
      then show ?thesis
        using False k by simp
    next
      assume "\<exists>xs f' post e1' e2. fs = xs @ f' # post \<and> W f' \<and> \<not> list_ex W post
             \<and> length (axes e1') = 2 \<and> apply_fragment e1' f' = Inr e2 \<and> g e1 = g e2"
      then obtain xs f' post e1' e2 where "fs = xs @ f' # post" "W f'" "\<not> list_ex W post"
        "length (axes e1') = 2" "apply_fragment e1' f' = Inr e2" "g e1 = g e2"
        by blast
      then have "fs @ [f] = xs @ f' # (post @ [f]) \<and> W f' \<and> \<not> list_ex W (post @ [f])
            \<and> length (axes e1') = 2 \<and> apply_fragment e1' f' = Inr e2 \<and> g ev = g e2"
        using False k by simp
      then show ?thesis
        by blast
    qed
  qed
qed

lemma last_axis_value:
  assumes run: "run_fragments zero_event fs = Inr ev" and i: "i < 2"
  shows "(\<not> list_ex (writes_axis_value i) fs \<and> axis_value (axes ev ! i) = 0)
       \<or> (\<exists>xs t a post. fs = xs @ FAxis t a (axis_value (axes ev ! i)) # post \<and> unat a = i
             \<and> \<not> list_ex (writes_axis_value i) post)"
proof -
  have keep: "\<And>ev f ev'. apply_fragment ev f = Inr ev' \<Longrightarrow> length (axes ev) = 2
       \<Longrightarrow> \<not> writes_axis_value i f \<Longrightarrow> axis_value (axes ev' ! i) = axis_value (axes ev ! i)"
    using i by (rule apply_keeps_axis_value [rotated 2])
  from run_last_writer [of "writes_axis_value i" "\<lambda>ev. axis_value (axes ev ! i)", OF keep run]
  show ?thesis
  proof
    show "length (axes zero_event) = 2"
      by (simp add: zero_event_simps)
  next
    assume "\<not> list_ex (writes_axis_value i) fs \<and> axis_value (axes ev ! i) = axis_value (axes zero_event ! i)"
    then show ?thesis
      using i by (auto simp add: zero_event_def zero_slot_def less_two)
  next
    assume "\<exists>xs f post e1 e2. fs = xs @ f # post \<and> writes_axis_value i f
             \<and> \<not> list_ex (writes_axis_value i) post
             \<and> length (axes e1) = 2 \<and> apply_fragment e1 f = Inr e2
             \<and> axis_value (axes ev ! i) = axis_value (axes e2 ! i)"
    then obtain xs f post e1 e2 where fs: "fs = xs @ f # post" and w: "writes_axis_value i f"
      and p: "\<not> list_ex (writes_axis_value i) post" and l: "length (axes e1) = 2"
      and a: "apply_fragment e1 f = Inr e2"
      and v: "axis_value (axes ev ! i) = axis_value (axes e2 ! i)"
      by blast
    from w obtain t a v' where f: "f = FAxis t a v'" and ai: "unat a = i"
      by (cases f) auto
    from a f ai l i have "axis_value (axes e2 ! i) = v'"
      by (auto simp add: wl_pointer_axis_def split: if_splits)
    then show ?thesis
      using fs f ai p v by auto
  qed
qed


lemma last_discrete:
  assumes run: "run_fragments zero_event fs = Inr ev" and i: "i < 2"
  shows "(\<not> list_ex (writes_discrete i) fs \<and> discrete (axes ev ! i) = 0)
       \<or> (\<exists>xs a post. fs = xs @ FAxisDiscrete a (discrete (axes ev ! i)) # post \<and> unat a = i
             \<and> \<not> list_ex (writes_discrete i) post)"
proof -
  have keep: "\<And>ev f ev'. apply_fragment ev f = Inr ev' \<Longrightarrow> length (axes ev) = 2
       \<Longrightarrow> \<not> writes_discrete i f \<Longrightarrow> discrete (axes ev' ! i) = discrete (axes ev ! i)"
    subgoal for ev f ev'
      using i by (cases f) (auto simp add: handler_defs nth_list_update split: if_splits)
    done
  from run_last_writer [of "writes_discrete i" "\<lambda>ev. discrete (axes ev ! i)", OF keep run]
  show ?thesis
  proof
    show "length (axes zero_event) = 2"
      by (simp add: zero_event_simps)
  next
    assume "\<not> list_ex (writes_discrete i) fs \<and> discrete (axes ev ! i) = discrete (axes zero_event ! i)"
    then show ?thesis
      using i by (auto simp add: zero_event_def zero_slot_def less_two)
  next
    assume "\<exists>xs f post e1 e2. fs = xs @ f # post \<and> writes_discrete i f
             \<and> \<not> list_ex (writes_discrete i) post
             \<and> length (axes e1) = 2 \<and> apply_fragment e1 f = Inr e2
             \<and> discrete (axes ev ! i) = discrete (axes e2 ! i)"
    then obtain xs f post e1 e2 where fs: "fs = xs @ f # post" and w: "writes_discrete i f"
      and p: "\<not> list_ex (writes_discrete i) post" and l: "length (axes e1) = 2"
      and a: "apply_fragment e1 f = Inr e2"
      and v: "discrete (axes ev ! i) = discrete (axes e2 ! i)"
      by blast
    from w obtain a' d where f: "f = FAxisDiscrete a' d" and ai: "unat a' = i"
      by (cases f) auto
    from a f ai l i have "discrete (axes e2 ! i) = d"
      by (auto simp add: wl_pointer_axis_discrete_def split: if_splits)
    then show ?thesis
      using fs f ai p v by auto
  qed
qed

lemma last_coords:
  assumes run: "run_fragments zero_event fs = Inr ev"
  shows "(\<not> list_ex writes_coords fs \<and> surface_x ev = 0 \<and> surface_y ev = 0)
       \<or> (\<exists>xs f post. fs = xs @ f # post
             \<and> ((\<exists>s. f = FEnter s (surface_x ev) (surface_y ev))
                \<or> (\<exists>t. f = FMotion t (surface_x ev) (surface_y ev)))
             \<and> \<not> list_ex writes_coords post)"
proof -
  have keep: "\<And>ev f ev'. apply_fragment ev f = Inr ev' \<Longrightarrow> length (axes ev) = 2
       \<Longrightarrow> \<not> writes_coords f \<Longrightarrow> (surface_x ev', surface_y ev') = (surface_x ev, surface_y ev)"
    using apply_keeps_coords by simp
  from run_last_writer [of writes_coords "\<lambda>ev. (surface_x ev, surface_y ev)", OF keep run]
  show ?thesis
  proof
    show "length (axes zero_event) = 2"
      by (simp add: zero_event_simps)
  next
    assume "\<not> list_ex writes_coords fs
      \<and> (surface_x ev, surface_y ev) = (surface_x zero_event, surface_y zero_event)"
    then show ?thesis
      by (simp add: zero_event_def)
  next
    assume "\<exists>xs f post e1 e2. fs = xs @ f # post \<and> writes_coords f
             \<and> \<not> list_ex writes_coords post
             \<and> length (axes e1) = 2 \<and> apply_fragment e1 f = Inr e2
             \<and> (surface_x ev, surface_y ev) = (surface_x e2, surface_y e2)"
    then obtain xs f post e1 e2 where fs: "fs = xs @ f # post" and w: "writes_coords f"
      and p: "\<not> list_ex writes_coords post"
      and a: "apply_fragment e1 f = Inr e2"
      and v: "surface_x ev = surface_x e2" "surface_y ev = surface_y e2"
      by auto
    from w a have "(\<exists>s. f = FEnter s (surface_x e2) (surface_y e2))
                \<or> (\<exists>t. f = FMotion t (surface_x e2) (surface_y e2))"
      by (cases f) (auto simp add: handler_defs)
    then have "fs = xs @ f # post
             \<and> ((\<exists>s. f = FEnter s (surface_x ev) (surface_y ev))
                \<or> (\<exists>t. f = FMotion t (surface_x ev) (surface_y ev)))
             \<and> \<not> list_ex writes_coords post"
      using fs p v by simp
    then show ?thesis
      by blast
  qed
qed

lemma last_button:
  assumes run: "run_fragments zero_event fs = Inr ev"
  shows "(\<not> list_ex writes_button fs \<and> button ev = 0 \<and> state ev = 0)
       \<or> (\<exists>xs s t post. fs = xs @ FButton s t (button ev) (state ev) # post
             \<and> \<not> list_ex writes_button post)"
proof -
  have keep: "\<And>ev f ev'. apply_fragment ev f = Inr ev' \<Longrightarrow> length (axes ev) = 2
       \<Longrightarrow> \<not> writes_button f \<Longrightarrow> (button ev', state ev') = (button ev, state ev)"
    subgoal for ev f ev'
      by (cases f) (auto simp add: handler_defs split: if_splits)
    done
  from run_last_writer [of writes_button "\<lambda>ev. (button ev, state ev)", OF keep run]
  show ?thesis
  proof
    show "length (axes zero_event) = 2"
      by (simp add: zero_event_simps)
  next
    assume "\<not> list_ex writes_button fs
      \<and> (button ev, state ev) = (button zero_event, state zero_event)"
    then show ?thesis
      by (simp add: zero_event_def)
  next
    assume "\<exists>xs f post e1 e2. fs = xs @ f # post \<and> writes_button f
             \<and> \<not> list_ex writes_button post
             \<and> length (axes e1) = 2 \<and> apply_fragment e1 f = Inr e2
             \<and> (button ev, state ev) = (button e2, state e2)"
    then obtain xs f post e1 e2 where fs: "fs = xs @ f # post" and w: "writes_button f"
      and p: "\<not> list_ex writes_button post"
      and a: "apply_fragment e1 f = Inr e2"
      and v: "button ev = button e2" "state ev = state e2"
      by auto
    from w a have "\<exists>s t. f = FButton s t (button e2) (state e2)"
      by (cases f) (auto simp add: handler_defs)
    then show ?thesis
      using fs p v by auto
  qed
qed

lemma last_source:
  assumes run: "run_fragments zero_event fs = Inr ev"
  shows "(\<not> list_ex writes_source fs \<and> axis_source ev = 0)
       \<or> (\<exists>xs post. fs = xs @ FAxisSource (axis_source ev) # post
             \<and> \<not> list_ex writes_source post)"
proof -
  have keep: "\<And>ev f ev'. apply_fragment ev f = Inr ev' \<Longrightarrow> length (axes ev) = 2
       \<Longrightarrow> \<not> writes_source f \<Longrightarrow> axis_source ev' = axis_source ev"
    subgoal for ev f ev'
      by (cases f) (auto simp add: handler_defs split: if_splits)
    done
  from run_last_writer [of writes_source axis_source, OF keep run]
  show ?thesis
  proof
    show "length (axes zero_event) = 2"
      by (simp add: zero_event_simps)
  next
    assume "\<not> list_ex writes_source fs \<and> axis_source ev = axis_source zero_event"
    then show ?thesis
      by (simp add: zero_event_def)
  next
    assume "\<exists>xs f post e1 e2. fs = xs @ f # post \<and> writes_source f
             \<and> \<not> list_ex writes_source post
             \<and> length (axes e1) = 2 \<and> apply_fragment e1 f = Inr e2
             \<and> axis_source ev = axis_source e2"
    then obtain xs f post e1 e2 where fs: "fs = xs @ f # post" and w: "writes_source f"
      and p: "\<not> list_ex writes_source post"
      and a: "apply_fragment e1 f = Inr e2"
      and v: "axis_source ev = axis_source e2"
      by auto
    from w a have "f = FAxisSource (axis_source e2)"
      by (cases f) (auto simp add: handler_defs)
    then show ?thesis
      using fs p v by auto
  qed
qed

lemma last_time:
  assumes run: "run_fragments zero_event fs = Inr ev"
  shows "(\<not> list_ex writes_time fs \<and> time ev = 0)
       \<or> (\<exists>xs f post. fs = xs @ f # post \<and> fragment_time f = Some (time ev)
             \<and> \<not> list_ex writes_time post)"
proof -
  have keep: "\<And>ev f ev'. apply_fragment ev f = Inr ev' \<Longrightarrow> length (axes ev) = 2
       \<Longrightarrow> \<not> writes_time f \<Longrightarrow> time ev' = time ev"
    subgoal for ev f ev'
      by (cases f) (auto simp add: handler_defs writes_time_def split: if_splits)
    done
  from run_last_writer [of writes_time time, OF keep run]
  show ?thesis
  proof
    show "length (axes zero_event) = 2"
      by (simp add: zero_event_simps)
  next
    assume "\<not> list_ex writes_time fs \<and> time ev = time zero_event"
    then show ?thesis
      by (simp add: zero_event_def)
  next
    assume "\<exists>xs f post e1 e2. fs = xs @ f # post \<and> writes_time f
             \<and> \<not> list_ex writes_time post
             \<and> length (axes e1) = 2 \<and> apply_fragment e1 f = Inr e2
             \<and> time ev = time e2"
    then obtain xs f post e1 e2 where fs: "fs = xs @ f # post" and w: "writes_time f"
      and p: "\<not> list_ex writes_time post"
      and a: "apply_fragment e1 f = Inr e2"
      and v: "time ev = time e2"
      by auto
    from w a have "fragment_time f = Some (time e2)"
      by (cases f) (auto simp add: handler_defs writes_time_def split: if_splits)
    then have "fs = xs @ f # post \<and> fragment_time f = Some (time ev)
             \<and> \<not> list_ex writes_time post"
      using fs p v by simp
    then show ?thesis
      by blast
  qed
qed

lemma list_ex_member: "f \<in> set fs \<Longrightarrow> P f \<Longrightarrow> list_ex P fs"
  by (auto simp add: list_ex_iff)

lemma frame_header:
  assumes "wl_pointer_frame H ev = Inr (out, z)"
  shows "hd out = PFrameAt (time ev)"
  using assms by (auto simp add: wl_pointer_frame_def split: sum.splits)

lemmas frame_eval = pointer_frame_of_def wl_pointer_frame_def axes_report_def axis_report_def
  axis_events_def handler_defs mask_defs zero_event_def zero_slot_def protocol_headers_def

lemma empty_frame: "pointer_frame_of H [] = Inr ([PFrameAt 0, PNewline], zero_event)"
  by (simp add: frame_eval)

subsection \<open>What a frame reports\<close>

text \<open>
  Claim C1 says that the snapshot printed at a frame event reports exactly the fields
  touched since the last flush and every untouched field as absent. The structure
  does not record that much: the mask has one bit per kind of event for the whole
  frame, and each axis has one flag \<^verbatim>\<open>valid\<close>. With a stop on the vertical axis and a
  value on the horizontal axis, the frame prints a value (zero) for the vertical axis
  and a stop for the horizontal one, which no fragment touched.
\<close>

theorem frame_reports_untouched_axis_value_counterexample:
  "pointer_frame_of protocol_headers [FAxisStop 7 0, FAxis 9 1 512] =
     Inr ([PFrameAt 9,
           PAxisName 0, PAxisValue 0 0, PAxisStopped 0,
           PAxisName 1, PAxisValue 1 512, PAxisStopped 1,
           PNewline], zero_event)
   \<and> \<not> list_ex (writes_axis_value 0) [FAxisStop 7 0, FAxis 9 1 512]"
  by (simp add: frame_eval)

text \<open>
  Claim C1, amended. For every sequence of fragments within the protocol's ranges that
  arrives at a flushed structure, the frame event prints a snapshot and leaves the
  structure all zero. The snapshot reports enter, leave, motion and button exactly
  when a fragment of that kind arrived, and an axis exactly when an axis, stop or
  discrete fragment named it. Within a reported axis the value, the discrete step, the
  source and the stop are printed when a fragment of that kind arrived in the frame
  for either axis. Every value printed is the one stored by the last fragment of the
  frame that writes it, and zero when no fragment of the frame writes it: so an axis
  that was named only by a stop or a discrete fragment is printed with the value 0 when
  the other axis has a value. With no fragment at all only the header, with time 0,
  and the end of line are printed.
\<close>

theorem frame_reports_touched_kinds:
  assumes rng: "list_all fragment_in_range fs"
  shows "pointer_frame_of H [] = Inr ([PFrameAt 0, PNewline], zero_event)
   \<and> (\<exists>out. pointer_frame_of H fs = Inr (out, zero_event)
     \<and> ((\<exists>x y. PEntered x y \<in> set out) \<longleftrightarrow> (\<exists>s x y. FEnter s x y \<in> set fs))
     \<and> (PLeave \<in> set out \<longleftrightarrow> (\<exists>s. FLeave s \<in> set fs))
     \<and> ((\<exists>x y. PMotion x y \<in> set out) \<longleftrightarrow> (\<exists>t x y. FMotion t x y \<in> set fs))
     \<and> ((\<exists>b w. PButton b w \<in> set out) \<longleftrightarrow> (\<exists>s t b st. FButton s t b st \<in> set fs))
     \<and> (\<forall>i. PAxisName i \<in> set out \<longleftrightarrow> touches_axis fs i)
     \<and> (\<forall>i. (\<exists>v. PAxisValue i v \<in> set out) \<longleftrightarrow>
              touches_axis fs i \<and> (\<exists>t a v. FAxis t a v \<in> set fs))
     \<and> (\<forall>i. (\<exists>d. PAxisDiscrete i d \<in> set out) \<longleftrightarrow>
              touches_axis fs i \<and> (\<exists>a d. FAxisDiscrete a d \<in> set fs))
     \<and> (\<forall>i. (\<exists>s. PAxisVia i s \<in> set out) \<longleftrightarrow>
              touches_axis fs i \<and> (\<exists>s. FAxisSource s \<in> set fs))
     \<and> (\<forall>i. PAxisStopped i \<in> set out \<longleftrightarrow>
              touches_axis fs i \<and> (\<exists>t a. FAxisStop t a \<in> set fs))
     \<and> (\<forall>i v. PAxisValue i v \<in> set out \<longrightarrow>
            (\<not> list_ex (writes_axis_value i) fs \<and> v = 0)
          \<or> (\<exists>xs t a post. fs = xs @ FAxis t a v # post \<and> unat a = i
                 \<and> \<not> list_ex (writes_axis_value i) post))
     \<and> (\<forall>i d. PAxisDiscrete i d \<in> set out \<longrightarrow>
            (\<not> list_ex (writes_discrete i) fs \<and> d = 0)
          \<or> (\<exists>xs a post. fs = xs @ FAxisDiscrete a d # post \<and> unat a = i
                 \<and> \<not> list_ex (writes_discrete i) post))
     \<and> (\<forall>x y. PEntered x y \<in> set out \<or> PMotion x y \<in> set out \<longrightarrow>
            (\<exists>xs f post. fs = xs @ f # post
                 \<and> ((\<exists>s. f = FEnter s x y) \<or> (\<exists>t. f = FMotion t x y))
                 \<and> \<not> list_ex writes_coords post))
     \<and> (\<forall>b w. PButton b w \<in> set out \<longrightarrow>
            (\<exists>xs s t st post. fs = xs @ FButton s t b st # post
                 \<and> \<not> list_ex writes_button post
                 \<and> w = (if st = WL_POINTER_BUTTON_STATE_RELEASED H
                          then ''released'' else ''pressed'')))
     \<and> (\<forall>i s. PAxisVia i s \<in> set out \<longrightarrow>
            (\<exists>xs post. fs = xs @ FAxisSource s # post \<and> \<not> list_ex writes_source post))
     \<and> (\<exists>t. hd out = PFrameAt t
            \<and> ((\<not> list_ex writes_time fs \<and> t = 0)
               \<or> (\<exists>xs f post. fs = xs @ f # post \<and> fragment_time f = Some t
                      \<and> \<not> list_ex writes_time post))))"
proof (rule frame_state [OF rng])
  fix ev
  assume run: "run_fragments zero_event fs = Inr ev"
    and src: "unat (axis_source ev) < 4"
    and bits: "\<And>n. bit (event_mask ev) n \<longleftrightarrow> n \<in> kind_bit ` set fs"
    and val: "\<And>i. i < 2 \<Longrightarrow> valid (axes ev ! i) \<longleftrightarrow> touches_axis fs i"
  note tr = touches_axis_range [OF rng]
  show ?thesis
  proof (rule frame_members [OF src, of H])
    fix out
    assume fr: "wl_pointer_frame H ev = Inr (out, zero_event)"
      and m: "\<And>x y. PEntered x y \<in> set out \<longleftrightarrow>
            bit (event_mask ev) 0 \<and> x = surface_x ev \<and> y = surface_y ev"
       "PLeave \<in> set out \<longleftrightarrow> bit (event_mask ev) 1"
       "\<And>x y. PMotion x y \<in> set out \<longleftrightarrow>
            bit (event_mask ev) 2 \<and> x = surface_x ev \<and> y = surface_y ev"
       "\<And>b s. PButton b s \<in> set out \<longleftrightarrow> bit (event_mask ev) 3 \<and> b = button ev
            \<and> s = (if state ev = WL_POINTER_BUTTON_STATE_RELEASED H
                    then ''released'' else ''pressed'')"
       "\<And>i. PAxisName i \<in> set out \<longleftrightarrow> i < 2 \<and> valid (axes ev ! i)
            \<and> (bit (event_mask ev) 4 \<or> bit (event_mask ev) 5
                \<or> bit (event_mask ev) 6 \<or> bit (event_mask ev) 7)"
       "\<And>i v. PAxisValue i v \<in> set out \<longleftrightarrow> i < 2 \<and> valid (axes ev ! i)
            \<and> bit (event_mask ev) 4 \<and> v = axis_value (axes ev ! i)"
       "\<And>i d. PAxisDiscrete i d \<in> set out \<longleftrightarrow> i < 2 \<and> valid (axes ev ! i)
            \<and> bit (event_mask ev) 7 \<and> d = discrete (axes ev ! i)"
       "\<And>i s. PAxisVia i s \<in> set out \<longleftrightarrow> i < 2 \<and> valid (axes ev ! i)
            \<and> bit (event_mask ev) 5 \<and> s = axis_source ev"
       "\<And>i. PAxisStopped i \<in> set out \<longleftrightarrow> i < 2 \<and> valid (axes ev ! i)
            \<and> bit (event_mask ev) 6"
    have pf: "pointer_frame_of H fs = Inr (out, zero_event)"
      by (simp add: pointer_frame_of_def run fr)
    have c1: "(\<exists>x y. PEntered x y \<in> set out) \<longleftrightarrow> (\<exists>s x y. FEnter s x y \<in> set fs)"
      by (simp add: m bits kind_in_set)
    have c2: "PLeave \<in> set out \<longleftrightarrow> (\<exists>s. FLeave s \<in> set fs)"
      by (simp only: m bits kind_in_set)
    have c3: "(\<exists>x y. PMotion x y \<in> set out) \<longleftrightarrow> (\<exists>t x y. FMotion t x y \<in> set fs)"
      by (simp add: m bits kind_in_set)
    have c4: "(\<exists>b w. PButton b w \<in> set out) \<longleftrightarrow> (\<exists>s t b st. FButton s t b st \<in> set fs)"
      by (simp add: m bits kind_in_set)
    have c5: "\<forall>i. PAxisName i \<in> set out \<longleftrightarrow> touches_axis fs i"
    proof
      fix i show "PAxisName i \<in> set out \<longleftrightarrow> touches_axis fs i"
        using tr [of i] val [of i] by (auto simp add: m bits)
    qed
    have c6: "\<forall>i. (\<exists>v. PAxisValue i v \<in> set out) \<longleftrightarrow>
              touches_axis fs i \<and> (\<exists>t a v. FAxis t a v \<in> set fs)"
    proof
      fix i show "(\<exists>v. PAxisValue i v \<in> set out) \<longleftrightarrow>
              touches_axis fs i \<and> (\<exists>t a v. FAxis t a v \<in> set fs)"
        using tr [of i] val [of i] by (auto simp add: m bits kind_in_set)
    qed
    have c7: "\<forall>i. (\<exists>d. PAxisDiscrete i d \<in> set out) \<longleftrightarrow>
              touches_axis fs i \<and> (\<exists>a d. FAxisDiscrete a d \<in> set fs)"
    proof
      fix i show "(\<exists>d. PAxisDiscrete i d \<in> set out) \<longleftrightarrow>
              touches_axis fs i \<and> (\<exists>a d. FAxisDiscrete a d \<in> set fs)"
        using tr [of i] val [of i] by (auto simp add: m bits kind_in_set)
    qed
    have c8: "\<forall>i. (\<exists>s. PAxisVia i s \<in> set out) \<longleftrightarrow>
              touches_axis fs i \<and> (\<exists>s. FAxisSource s \<in> set fs)"
    proof
      fix i show "(\<exists>s. PAxisVia i s \<in> set out) \<longleftrightarrow>
              touches_axis fs i \<and> (\<exists>s. FAxisSource s \<in> set fs)"
        using tr [of i] val [of i] by (auto simp add: m bits kind_in_set)
    qed
    have c9: "\<forall>i. PAxisStopped i \<in> set out \<longleftrightarrow>
              touches_axis fs i \<and> (\<exists>t a. FAxisStop t a \<in> set fs)"
    proof
      fix i show "PAxisStopped i \<in> set out \<longleftrightarrow>
              touches_axis fs i \<and> (\<exists>t a. FAxisStop t a \<in> set fs)"
        using tr [of i] val [of i] by (auto simp add: m bits kind_in_set)
    qed
    have d1: "\<forall>i v. PAxisValue i v \<in> set out \<longrightarrow>
            (\<not> list_ex (writes_axis_value i) fs \<and> v = 0)
          \<or> (\<exists>xs t a post. fs = xs @ FAxis t a v # post \<and> unat a = i
                 \<and> \<not> list_ex (writes_axis_value i) post)"
    proof (intro allI impI)
      fix i v assume "PAxisValue i v \<in> set out"
      then have i: "i < 2" and v: "v = axis_value (axes ev ! i)"
        by (simp_all add: m)
      show "(\<not> list_ex (writes_axis_value i) fs \<and> v = 0)
          \<or> (\<exists>xs t a post. fs = xs @ FAxis t a v # post \<and> unat a = i
                 \<and> \<not> list_ex (writes_axis_value i) post)"
        unfolding v by (rule last_axis_value [OF run i])
    qed
    have d2: "\<forall>i d. PAxisDiscrete i d \<in> set out \<longrightarrow>
            (\<not> list_ex (writes_discrete i) fs \<and> d = 0)
          \<or> (\<exists>xs a post. fs = xs @ FAxisDiscrete a d # post \<and> unat a = i
                 \<and> \<not> list_ex (writes_discrete i) post)"
    proof (intro allI impI)
      fix i d assume "PAxisDiscrete i d \<in> set out"
      then have i: "i < 2" and d: "d = discrete (axes ev ! i)"
        by (simp_all add: m)
      show "(\<not> list_ex (writes_discrete i) fs \<and> d = 0)
          \<or> (\<exists>xs a post. fs = xs @ FAxisDiscrete a d # post \<and> unat a = i
                 \<and> \<not> list_ex (writes_discrete i) post)"
        unfolding d by (rule last_discrete [OF run i])
    qed
    have d3: "\<forall>x y. PEntered x y \<in> set out \<or> PMotion x y \<in> set out \<longrightarrow>
            (\<exists>xs f post. fs = xs @ f # post
                 \<and> ((\<exists>s. f = FEnter s x y) \<or> (\<exists>t. f = FMotion t x y))
                 \<and> \<not> list_ex writes_coords post)"
    proof (intro allI impI)
      fix x y assume a: "PEntered x y \<in> set out \<or> PMotion x y \<in> set out"
      then have xy: "x = surface_x ev" "y = surface_y ev"
        by (auto simp add: m)
      from a have "(\<exists>s x y. FEnter s x y \<in> set fs) \<or> (\<exists>t x y. FMotion t x y \<in> set fs)"
        by (auto simp add: m bits kind_in_set)
      then have w: "list_ex writes_coords fs"
        by (elim disjE exE) (erule list_ex_member, simp)+
      from last_coords [OF run] w
      show "\<exists>xs f post. fs = xs @ f # post
                 \<and> ((\<exists>s. f = FEnter s x y) \<or> (\<exists>t. f = FMotion t x y))
                 \<and> \<not> list_ex writes_coords post"
        unfolding xy by simp
    qed
    have d4: "\<forall>b w. PButton b w \<in> set out \<longrightarrow>
            (\<exists>xs s t st post. fs = xs @ FButton s t b st # post
                 \<and> \<not> list_ex writes_button post
                 \<and> w = (if st = WL_POINTER_BUTTON_STATE_RELEASED H
                          then ''released'' else ''pressed''))"
    proof (intro allI impI)
      fix b w assume a: "PButton b w \<in> set out"
      then have b: "b = button ev"
        and w: "w = (if state ev = WL_POINTER_BUTTON_STATE_RELEASED H
                     then ''released'' else ''pressed'')"
        by (simp_all add: m)
      from a have "\<exists>s t b st. FButton s t b st \<in> set fs"
        by (simp add: m bits kind_in_set)
      then have "list_ex writes_button fs"
        by (elim exE) (erule list_ex_member, simp)
      with last_button [OF run]
      have "\<exists>xs s t post. fs = xs @ FButton s t (button ev) (state ev) # post
             \<and> \<not> list_ex writes_button post"
        by simp
      then show "\<exists>xs s t st post. fs = xs @ FButton s t b st # post
                 \<and> \<not> list_ex writes_button post
                 \<and> w = (if st = WL_POINTER_BUTTON_STATE_RELEASED H
                          then ''released'' else ''pressed'')"
        unfolding b w by blast
    qed
    have d5: "\<forall>i s. PAxisVia i s \<in> set out \<longrightarrow>
            (\<exists>xs post. fs = xs @ FAxisSource s # post \<and> \<not> list_ex writes_source post)"
    proof (intro allI impI)
      fix i s assume a: "PAxisVia i s \<in> set out"
      then have s: "s = axis_source ev"
        by (simp add: m)
      from a have "\<exists>s. FAxisSource s \<in> set fs"
        by (simp add: m bits kind_in_set)
      then have "list_ex writes_source fs"
        by (elim exE) (erule list_ex_member, simp)
      with last_source [OF run]
      show "\<exists>xs post. fs = xs @ FAxisSource s # post \<and> \<not> list_ex writes_source post"
        unfolding s by simp
    qed
    have d6: "\<exists>t. hd out = PFrameAt t
            \<and> ((\<not> list_ex writes_time fs \<and> t = 0)
               \<or> (\<exists>xs f post. fs = xs @ f # post \<and> fragment_time f = Some t
                      \<and> \<not> list_ex writes_time post))"
      using frame_header [OF fr] last_time [OF run] by blast
    show ?thesis
      apply (rule conjI [OF empty_frame])
      apply (rule exI [of _ out])
      apply (intro conjI)
                    apply (rule pf)
                   apply (rule c1)
                  apply (rule c2)
                 apply (rule c3)
                apply (rule c4)
               apply (rule c5)
              apply (rule c6)
             apply (rule c7)
            apply (rule c8)
           apply (rule c9)
          apply (rule d1)
         apply (rule d2)
        apply (rule d3)
       apply (rule d4)
      apply (rule d5)
      apply (rule d6)
      done
  qed
qed

theorem frame_reports_touched_kinds_witness:
  "list_all fragment_in_range [FAxisDiscrete 0 3, FAxis 9 1 512, FEnter 4 256 768]
   \<and> pointer_frame_of protocol_headers [FAxisDiscrete 0 3, FAxis 9 1 512, FEnter 4 256 768]
       = Inr ([PFrameAt 9, PEntered 256 768,
               PAxisName 0, PAxisValue 0 0, PAxisDiscrete 0 3,
               PAxisName 1, PAxisValue 1 512, PAxisDiscrete 1 0,
               PNewline], zero_event)
   \<and> \<not> list_ex (writes_axis_value 0) [FAxisDiscrete 0 3, FAxis 9 1 512, FEnter 4 256 768]
   \<and> \<not> list_ex (writes_discrete 1) [FAxisDiscrete 0 3, FAxis 9 1 512, FEnter 4 256 768]"
  using frame_reports_touched_kinds
          [of "[FAxisDiscrete 0 3, FAxis 9 1 512, FEnter 4 256 768]" protocol_headers]
  by (simp add: frame_eval)

text \<open>
  Claim C8: when two axis fragments name the same valid axis within one frame, and no
  later axis fragment of the frame names it, the snapshot marks the axis as reported
  and carries the second value and no other value for it.
\<close>

theorem axis_last_value_wins:
  assumes rng: "list_all fragment_in_range (pre @ FAxis t1 a v1 # mid @ FAxis t2 a v2 # post)"
    and post: "\<not> list_ex (writes_axis_value (unat a)) post"
  shows "\<exists>out. pointer_frame_of H (pre @ FAxis t1 a v1 # mid @ FAxis t2 a v2 # post)
                  = Inr (out, zero_event)
     \<and> PAxisName (unat a) \<in> set out
     \<and> (\<forall>v. PAxisValue (unat a) v \<in> set out \<longleftrightarrow> v = v2)"
proof (rule frame_state [OF rng])
  let ?fs = "pre @ FAxis t1 a v1 # mid @ FAxis t2 a v2 # post"
  fix ev
  assume run: "run_fragments zero_event ?fs = Inr ev"
    and src: "unat (axis_source ev) < 4"
    and bits: "\<And>n. bit (event_mask ev) n \<longleftrightarrow> n \<in> kind_bit ` set ?fs"
    and val: "\<And>i. i < 2 \<Longrightarrow> valid (axes ev ! i) \<longleftrightarrow> touches_axis ?fs i"
  have ar: "unat a < 2"
    using rng by simp
  have b4: "bit (event_mask ev) 4"
    unfolding bits kind_in_set by auto
  have va: "valid (axes ev ! unat a)"
    unfolding val [OF ar] by (simp add: touches_axis_def)
  have run': "run_fragments zero_event ((pre @ FAxis t1 a v1 # mid) @ FAxis t2 a v2 # post) = Inr ev"
    using run by simp
  have v2: "axis_value (axes ev ! unat a) = v2"
    using run_last_axis_value [OF run' _ post] by (simp add: zero_event_simps)
  show ?thesis
  proof (rule frame_members [OF src, of H])
    fix out
    assume fr: "wl_pointer_frame H ev = Inr (out, zero_event)"
      and nm: "\<And>i. PAxisName i \<in> set out \<longleftrightarrow> i < 2 \<and> valid (axes ev ! i)
            \<and> (bit (event_mask ev) 4 \<or> bit (event_mask ev) 5
                \<or> bit (event_mask ev) 6 \<or> bit (event_mask ev) 7)"
      and vl: "\<And>i v. PAxisValue i v \<in> set out \<longleftrightarrow> i < 2 \<and> valid (axes ev ! i)
            \<and> bit (event_mask ev) 4 \<and> v = axis_value (axes ev ! i)"
    have pf: "pointer_frame_of H ?fs = Inr (out, zero_event)"
      by (simp add: pointer_frame_of_def run fr)
    show ?thesis
      apply (rule exI [of _ out])
      apply (simp only: pf nm vl)
      apply (simp add: ar va b4 v2)
      done
  qed
qed

theorem axis_last_value_wins_witness:
  "list_all fragment_in_range ([] @ FAxis 1 0 256 # [FAxisSource 0] @ FAxis 2 0 512 # [])
   \<and> \<not> list_ex (writes_axis_value (unat (0 :: u32))) []
   \<and> (\<exists>out. pointer_frame_of protocol_headers
                ([] @ FAxis 1 0 256 # [FAxisSource 0] @ FAxis 2 0 512 # []) = Inr (out, zero_event)
        \<and> PAxisName (unat (0 :: u32)) \<in> set out
        \<and> (\<forall>v. PAxisValue (unat (0 :: u32)) v \<in> set out \<longleftrightarrow> v = 512))"
  using axis_last_value_wins [of "[]" 1 0 256 "[FAxisSource 0]" 2 512 "[]" protocol_headers]
  by simp

text \<open>
  Claim C9: enter and motion store their coordinates in the same pair of fields. When
  an enter and a later motion arrive in one frame, and no enter or motion follows, the
  snapshot prints the coordinates of the motion for the enter as well as for the motion.
\<close>

theorem enter_and_motion_share_coordinates:
  assumes rng: "list_all fragment_in_range (pre @ FEnter s x1 y1 # mid @ FMotion t x2 y2 # post)"
    and post: "\<not> list_ex writes_coords post"
  shows "\<exists>out. pointer_frame_of H (pre @ FEnter s x1 y1 # mid @ FMotion t x2 y2 # post)
                  = Inr (out, zero_event)
     \<and> (\<forall>x y. PEntered x y \<in> set out \<longleftrightarrow> x = x2 \<and> y = y2)
     \<and> (\<forall>x y. PMotion x y \<in> set out \<longleftrightarrow> x = x2 \<and> y = y2)"
proof (rule frame_state [OF rng])
  let ?fs = "pre @ FEnter s x1 y1 # mid @ FMotion t x2 y2 # post"
  fix ev
  assume run: "run_fragments zero_event ?fs = Inr ev"
    and src: "unat (axis_source ev) < 4"
    and bits: "\<And>n. bit (event_mask ev) n \<longleftrightarrow> n \<in> kind_bit ` set ?fs"
  have b0: "bit (event_mask ev) 0"
    unfolding bits kind_in_set by auto
  have b2: "bit (event_mask ev) 2"
    unfolding bits kind_in_set by auto
  have run': "run_fragments zero_event ((pre @ FEnter s x1 y1 # mid) @ FMotion t x2 y2 # post) = Inr ev"
    using run by simp
  have xy: "surface_x ev = x2 \<and> surface_y ev = y2"
    using run_last_motion [OF run' post] .
  show ?thesis
  proof (rule frame_members [OF src, of H])
    fix out
    assume fr: "wl_pointer_frame H ev = Inr (out, zero_event)"
      and en: "\<And>x y. PEntered x y \<in> set out \<longleftrightarrow>
            bit (event_mask ev) 0 \<and> x = surface_x ev \<and> y = surface_y ev"
      and mo: "\<And>x y. PMotion x y \<in> set out \<longleftrightarrow>
            bit (event_mask ev) 2 \<and> x = surface_x ev \<and> y = surface_y ev"
    have pf: "pointer_frame_of H ?fs = Inr (out, zero_event)"
      by (simp add: pointer_frame_of_def run fr)
    show ?thesis
      apply (rule exI [of _ out])
      apply (simp only: pf en mo)
      apply (simp add: b0 b2 xy)
      done
  qed
qed

theorem enter_and_motion_share_coordinates_witness:
  "list_all fragment_in_range ([] @ FEnter 3 256 512 # [] @ FMotion 10 768 1024 # [FLeave 4])
   \<and> \<not> list_ex writes_coords [FLeave 4]
   \<and> (\<exists>out. pointer_frame_of protocol_headers
                ([] @ FEnter 3 256 512 # [] @ FMotion 10 768 1024 # [FLeave 4])
                = Inr (out, zero_event)
        \<and> (\<forall>x y. PEntered x y \<in> set out \<longleftrightarrow> x = 768 \<and> y = 1024)
        \<and> (\<forall>x y. PMotion x y \<in> set out \<longleftrightarrow> x = 768 \<and> y = 1024))"
  using enter_and_motion_share_coordinates
          [of "[]" 3 256 512 "[]" 10 768 1024 "[FLeave 4]" protocol_headers]
  by simp

subsection \<open>The axis index\<close>

text \<open>
  Claim C4 says that an axis, stop or discrete event whose axis index is not 0 or 1 is
  rejected: ignored, with the pending frame unchanged and no write outside the array.
  The handlers have no such check; with index 2 each of them writes to \<^verbatim>\<open>axes[2]\<close>,
  outside the array.
\<close>

theorem axis_index_unchecked_counterexample:
  "wl_pointer_axis zero_event 7 2 256 = Inl OutOfBounds
   \<and> wl_pointer_axis_stop zero_event 7 2 = Inl OutOfBounds
   \<and> wl_pointer_axis_discrete zero_event 2 1 = Inl OutOfBounds"
  by (simp add: wl_pointer_axis_def wl_pointer_axis_stop_def wl_pointer_axis_discrete_def)

text \<open>
  Claim C4, amended. For the two valid indices each call stays inside the array: it
  marks the entry of that axis valid, stores the value or the discrete step there,
  leaves the entry of the other axis as it was, and changes nothing else but the mask
  and (for axis and stop) the time. For any other index nothing is promised: the
  handlers index the array with the value as it arrived.
\<close>

theorem axis_handlers_in_bounds:
  assumes ar: "unat axis < 2" and len: "length (axes ev) = 2"
  shows "\<exists>e1 e2 e3.
       wl_pointer_axis ev t axis v = Inr e1
     \<and> wl_pointer_axis_stop ev t axis = Inr e2
     \<and> wl_pointer_axis_discrete ev axis d = Inr e3
     \<and> length (axes e1) = 2 \<and> length (axes e2) = 2 \<and> length (axes e3) = 2
     \<and> axes e1 ! unat axis = (axes ev ! unat axis)\<lparr>valid := True, axis_value := v\<rparr>
     \<and> axes e2 ! unat axis = (axes ev ! unat axis)\<lparr>valid := True\<rparr>
     \<and> axes e3 ! unat axis = (axes ev ! unat axis)\<lparr>valid := True, discrete := d\<rparr>
     \<and> axes e1 ! (1 - unat axis) = axes ev ! (1 - unat axis)
     \<and> axes e2 ! (1 - unat axis) = axes ev ! (1 - unat axis)
     \<and> axes e3 ! (1 - unat axis) = axes ev ! (1 - unat axis)
     \<and> e1\<lparr>event_mask := event_mask ev, time := time ev, axes := axes ev\<rparr> = ev
     \<and> e2\<lparr>event_mask := event_mask ev, time := time ev, axes := axes ev\<rparr> = ev
     \<and> e3\<lparr>event_mask := event_mask ev, axes := axes ev\<rparr> = ev"
  using ar len
  by (auto simp add: wl_pointer_axis_def wl_pointer_axis_stop_def wl_pointer_axis_discrete_def
      less_two)

theorem axis_handlers_in_bounds_witness:
  "unat (1 :: u32) < 2 \<and> length (axes zero_event) = 2
   \<and> (\<exists>e1 e2 e3.
         wl_pointer_axis zero_event 7 1 256 = Inr e1
       \<and> wl_pointer_axis_stop zero_event 7 1 = Inr e2
       \<and> wl_pointer_axis_discrete zero_event 1 3 = Inr e3
       \<and> axes e1 ! 1 = \<lparr>valid = True, axis_value = 256, discrete = 0\<rparr>
       \<and> axes e2 ! 1 = \<lparr>valid = True, axis_value = 0, discrete = 0\<rparr>
       \<and> axes e3 ! 1 = \<lparr>valid = True, axis_value = 0, discrete = 3\<rparr>
       \<and> axes e1 ! 0 = zero_slot \<and> axes e2 ! 0 = zero_slot \<and> axes e3 ! 0 = zero_slot)"
  using axis_handlers_in_bounds [of 1 zero_event 7 256 3]
  by (auto simp add: zero_event_def zero_slot_def)

section \<open>Properties of the seat\<close>

lemmas seat_defs = wl_seat_capabilities_def seat_pointer_part_def seat_keyboard_part_def

text \<open>
  Claim C10: the capability handler is idempotent. When a capability event has been
  handled, the same bitmask delivered again sends no request and leaves the keyboard
  and pointer objects as they are, whatever the library would hand out. In the first
  event a device is requested exactly when its capability bit is set and the object is
  absent, and released exactly when the bit is clear and the object is present;
  afterwards an object is present exactly when its bit is set.
\<close>

theorem capabilities_idempotent:
  assumes first: "wl_seat_capabilities H st capabilities p1 k1 = Inr (rs, st')"
  shows "wl_seat_capabilities H st' capabilities p2 k2 = Inr ([], st')
     \<and> (SeatGetPointer \<in> set rs \<longleftrightarrow>
          capabilities AND WL_SEAT_CAPABILITY_POINTER H \<noteq> 0 \<and> wl_pointer st = None)
     \<and> ((\<exists>p. PointerRelease p \<in> set rs) \<longleftrightarrow>
          capabilities AND WL_SEAT_CAPABILITY_POINTER H = 0 \<and> wl_pointer st \<noteq> None)
     \<and> (SeatGetKeyboard \<in> set rs \<longleftrightarrow>
          capabilities AND WL_SEAT_CAPABILITY_KEYBOARD H \<noteq> 0 \<and> wl_keyboard st = None)
     \<and> ((\<exists>k. KeyboardRelease k \<in> set rs) \<longleftrightarrow>
          capabilities AND WL_SEAT_CAPABILITY_KEYBOARD H = 0 \<and> wl_keyboard st \<noteq> None)
     \<and> (wl_pointer st' \<noteq> None \<longleftrightarrow> capabilities AND WL_SEAT_CAPABILITY_POINTER H \<noteq> 0)
     \<and> (wl_keyboard st' \<noteq> None \<longleftrightarrow> capabilities AND WL_SEAT_CAPABILITY_KEYBOARD H \<noteq> 0)"
  using first
  by (auto simp add: seat_defs Let_def split: if_splits option.splits sum.splits)

theorem capabilities_idempotent_witness:
  "wl_seat_capabilities protocol_headers
      \<lparr>wl_keyboard = Some 5, wl_pointer = None, client_state.xkb_state = None,
        client_state.xkb_context = None, xkb_keymap = None\<rparr> 1 (Some 7) None
     = Inr ([SeatGetPointer, PointerAddListener 7, KeyboardRelease 5],
        \<lparr>wl_keyboard = None, wl_pointer = Some 7, client_state.xkb_state = None,
         client_state.xkb_context = None, xkb_keymap = None\<rparr>)
   \<and> wl_seat_capabilities protocol_headers
      \<lparr>wl_keyboard = None, wl_pointer = Some 7, client_state.xkb_state = None,
        client_state.xkb_context = None, xkb_keymap = None\<rparr> 1 (Some 8) (Some 9)
     = Inr ([], \<lparr>wl_keyboard = None, wl_pointer = Some 7, client_state.xkb_state = None,
         client_state.xkb_context = None, xkb_keymap = None\<rparr>)"
  using capabilities_idempotent [of protocol_headers
      "\<lparr>wl_keyboard = Some 5, wl_pointer = None, client_state.xkb_state = None,
        client_state.xkb_context = None, xkb_keymap = None\<rparr>" 1 "Some 7" None
      "[SeatGetPointer, PointerAddListener 7, KeyboardRelease 5]"
      "\<lparr>wl_keyboard = None, wl_pointer = Some 7, client_state.xkb_state = None,
         client_state.xkb_context = None, xkb_keymap = None\<rparr>" "Some 8" "Some 9"]
  by (simp add: seat_defs protocol_headers_def)

section \<open>Properties of the keyboard\<close>

lemmas xkb_defs = xkb_keymap_new_from_string_def xkb_keymap_unref_def xkb_state_unref_def
  xkb_state_new_def xkb_state_update_mask_def state_view_def xkb_state_key_get_syms_def
  xkb_state_key_get_one_sym_def xkb_state_key_get_utf8_def

lemmas os_defs = oprint_def eprint_def close_fd_def mapped_in_def munmap_def

lemmas demo_defs = demo_library_def demo_world_def demo_globals_def ready_world_def
  ready_globals_def ready_client_def demo_client_def good_keymap_def protocol_headers_def

lemma xkb_keymap_unref_os:
  assumes "xkb_keymap_unref w p = Inr w'"
  shows "os_part w' = os_part w"
proof (cases p)
  case None
  with assms show ?thesis by (simp add: xkb_keymap_unref_def)
next
  case (Some k)
  with assms show ?thesis
    by (cases "keymap_objs w k") (auto simp add: xkb_keymap_unref_def os_part_def)
qed

lemma xkb_state_unref_os:
  assumes "xkb_state_unref w p = Inr w'"
  shows "os_part w' = os_part w"
proof (cases p)
  case None
  with assms show ?thesis by (simp add: xkb_state_unref_def)
next
  case (Some s)
  show ?thesis
  proof (cases "state_objs w s")
    case None
    with assms Some show ?thesis by (simp add: xkb_state_unref_def)
  next
    case c: (Some c)
    obtain k m rc where c': "c = (k, m, rc)" by (cases c)
    show ?thesis
    proof (cases "rc \<le> 1")
      case True
      with assms Some c c'
      have "xkb_keymap_unref (w\<lparr>state_objs := (state_objs w)(s := None)\<rparr>) (Some k) = Inr w'"
        by (simp add: xkb_state_unref_def)
      from xkb_keymap_unref_os [OF this] show ?thesis
        by (simp add: os_part_def)
    next
      case False
      with assms Some c c' show ?thesis
        by (auto simp add: xkb_state_unref_def os_part_def)
    qed
  qed
qed

lemma xkb_state_new_os:
  assumes "xkb_state_new w p ok = Inr (r, w')"
  shows "os_part w' = os_part w"
proof (cases ok)
  case False
  with assms show ?thesis by (simp add: xkb_state_new_def)
next
  case True
  show ?thesis
  proof (cases p)
    case None
    with assms True show ?thesis by (simp add: xkb_state_new_def)
  next
    case (Some k)
    with assms True show ?thesis
      by (cases "keymap_objs w k") (auto simp add: xkb_state_new_def os_part_def)
  qed
qed

lemma xkb_keymap_new_os:
  assumes "xkb_keymap_new_from_string L w ctx str = Inr (r, w')"
  shows "os_part w' = os_part w"
proof (cases ctx)
  case None
  with assms show ?thesis by (simp add: xkb_keymap_new_from_string_def)
next
  case (Some c)
  with assms show ?thesis
    by (cases "compile_keymap L str") (auto simp add: xkb_keymap_new_from_string_def os_part_def)
qed


lemma sum_case_Inr:
  "(case x of Inl e \<Rightarrow> Inl e | Inr v \<Rightarrow> f v) = Inr r \<longleftrightarrow> (\<exists>v. x = Inr v \<and> f v = Inr r)"
  by (cases x) auto

lemma replace_keymap_Inr:
  "replace_keymap g w2 k alloc_ok = Inr (g', w') \<longleftrightarrow>
    (\<exists>w3 w4 ns w5.
       (if xkb_state g \<noteq> None then xkb_state_unref w2 (xkb_state g) else Inr w2) = Inr w3
     \<and> (if keymap g \<noteq> None then xkb_keymap_unref w3 (keymap g) else Inr w3) = Inr w4
     \<and> xkb_state_new w4 (Some k) alloc_ok = Inr (ns, w5)
     \<and> g' = (if ns = None then errorOccurred (g\<lparr>keymap := Some k, xkb_state := ns\<rparr>)
             else g\<lparr>keymap := Some k, xkb_state := ns\<rparr>)
     \<and> w' = (if ns = None then eprint w5 (Printf ''Failed to create XKB state\<newline>'' [])
             else w5))"
  unfolding replace_keymap_def sum_case_Inr
  by (intro ex_cong1 conj_cong refl) auto

lemma keymap_Inr:
  "keyboard_handle_keymap L gw format fd sz (Some str) alloc_ok = Inr r \<longleftrightarrow>
    (\<exists>nk w1.
       xkb_keymap_new_from_string L (mapped_in (snd gw)) (xkb_context (fst gw)) str = Inr (nk, w1)
     \<and> (case nk of
          None \<Rightarrow> Inr (errorOccurred (fst gw),
                       eprint (close_fd (munmap w1) fd)
                         (Printf ''Failed to compile keymap\<newline>'' []))
        | Some k \<Rightarrow> replace_keymap (fst gw) (close_fd (munmap w1) fd) k alloc_ok) = Inr r)"
  by (simp add: keyboard_handle_keymap_def sum_case_Inr)


lemma replace_keymap_os:
  assumes "replace_keymap g w2 k alloc_ok = Inr (g', w')"
  shows "os_part w' = (open_fds w2, live_maps w2, std_out w2,
           std_err w2 @ (if xkb_state g' = None
                         then [Printf ''Failed to create XKB state\<newline>'' []] else []))"
proof -
  from assms [unfolded replace_keymap_Inr] obtain w3 w4 ns w5 where
    u1: "(if xkb_state g \<noteq> None then xkb_state_unref w2 (xkb_state g) else Inr w2) = Inr w3"
    and u2: "(if keymap g \<noteq> None then xkb_keymap_unref w3 (keymap g) else Inr w3) = Inr w4"
    and n: "xkb_state_new w4 (Some k) alloc_ok = Inr (ns, w5)"
    and g': "g' = (if ns = None then errorOccurred (g\<lparr>keymap := Some k, xkb_state := ns\<rparr>)
             else g\<lparr>keymap := Some k, xkb_state := ns\<rparr>)"
    and w': "w' = (if ns = None
                   then eprint w5 (Printf ''Failed to create XKB state\<newline>'' []) else w5)"
    apply (elim exE conjE)
    apply (rule that)
    apply assumption+
    done
  have w3: "os_part w3 = os_part w2"
    using u1 xkb_state_unref_os [of w2 "xkb_state g" w3] by (cases "xkb_state g = None") simp_all
  have w4: "os_part w4 = os_part w3"
    using u2 xkb_keymap_unref_os [of w3 "keymap g" w4] by (cases "keymap g = None") simp_all
  have w5: "os_part w5 = os_part w4"
    using xkb_state_new_os [OF n] .
  have st: "xkb_state g' = ns"
    using g' by (simp add: errorOccurred_def)
  show ?thesis
    using w3 w4 w5 w' st by (cases "ns = None") (simp_all add: os_part_def eprint_def)
qed



lemma keymap_returns_os:
  assumes ret: "keyboard_handle_keymap L gw format fd sz mapped alloc_ok = Inr (g', w')"
  shows "open_fds w' = open_fds (snd gw) - {fd} \<and> live_maps w' = live_maps (snd gw)
         \<and> std_out w' = std_out (snd gw)"
proof (cases mapped)
  case None
  with ret show ?thesis
    by (auto simp add: keyboard_handle_keymap_def os_defs)
next
  case (Some str)
  with ret have ret': "keyboard_handle_keymap L gw format fd sz (Some str) alloc_ok = Inr (g', w')"
    by simp
  from ret' [unfolded keymap_Inr] obtain nk w1 where
    new: "xkb_keymap_new_from_string L (mapped_in (snd gw)) (xkb_context (fst gw)) str
            = Inr (nk, w1)"
    and rest: "(case nk of
                  None \<Rightarrow>
                    Inr (errorOccurred (fst gw),
                         eprint (close_fd (munmap w1) fd)
                           (Printf ''Failed to compile keymap\<newline>'' []))
                | Some k \<Rightarrow> replace_keymap (fst gw) (close_fd (munmap w1) fd) k alloc_ok)
               = Inr (g', w')"
    apply (elim exE conjE)
    apply (rule that)
    apply assumption+
    done
  let ?w2 = "close_fd (munmap w1) fd"
  have w2: "open_fds ?w2 = open_fds (snd gw) - {fd} \<and> live_maps ?w2 = live_maps (snd gw)
            \<and> std_out ?w2 = std_out (snd gw)"
    using xkb_keymap_new_os [OF new] by (simp add: os_defs os_part_def)
  show ?thesis
  proof (cases nk)
    case None
    with rest have "w' = eprint ?w2 (Printf ''Failed to compile keymap\<newline>'' [])"
      by simp
    with w2 show ?thesis by (simp add: eprint_def)
  next
    case k: (Some k)
    with rest have "replace_keymap (fst gw) ?w2 k alloc_ok = Inr (g', w')"
      by simp
    from replace_keymap_os [OF this] w2 show ?thesis by (simp add: os_part_def)
  qed
qed


lemma wl_keymap_asserts:
  "format \<noteq> WL_KEYBOARD_KEYMAP_FORMAT_XKB_V1 H \<or> mapped = None \<Longrightarrow>
     wl_keyboard_keymap H L cw format fd sz mapped alloc_ok = Inl AssertionFailed"
  by (auto simp add: wl_keyboard_keymap_def Let_def)

lemma sum_case_prod_Inr:
  "(case x of Inl e \<Rightarrow> Inl e | Inr (a, b) \<Rightarrow> f a b) = Inr r
     \<longleftrightarrow> (\<exists>a b. x = Inr (a, b) \<and> f a b = Inr r)"
  by (cases x) auto

lemma wl_keymap_Inr:
  "wl_keyboard_keymap H L cw format fd sz (Some str) alloc_ok = Inr r \<longleftrightarrow>
     format = WL_KEYBOARD_KEYMAP_FORMAT_XKB_V1 H
     \<and> (\<exists>nk w1. xkb_keymap_new_from_string L (mapped_in (snd cw))
                     (client_state.xkb_context (fst cw)) str = Inr (nk, w1)
        \<and> (\<exists>ns w2. xkb_state_new (close_fd (munmap w1) fd) nk alloc_ok = Inr (ns, w2)
           \<and> (\<exists>w3. xkb_keymap_unref w2 (xkb_keymap (fst cw)) = Inr w3
              \<and> (\<exists>w4. xkb_state_unref w3 (client_state.xkb_state (fst cw)) = Inr w4
                 \<and> r = ((fst cw)\<lparr>xkb_keymap := nk, client_state.xkb_state := ns\<rparr>, w4)))))"
  by (simp add: wl_keyboard_keymap_def Let_def sum_case_Inr sum_case_prod_Inr eq_commute [of r])

lemma wl_keymap_returns_os:
  assumes ret: "wl_keyboard_keymap H L cw format fd sz mapped alloc_ok = Inr (cs', w')"
  shows "open_fds w' = open_fds (snd cw) - {fd} \<and> live_maps w' = live_maps (snd cw)"
proof -
  from ret obtain str where str: "mapped = Some str"
    using wl_keymap_asserts [of format H mapped L cw fd sz alloc_ok] by (cases mapped) auto
  from ret [unfolded str wl_keymap_Inr] obtain nk w1 ns w2 w3 where
    new: "xkb_keymap_new_from_string L (mapped_in (snd cw)) (client_state.xkb_context (fst cw)) str
            = Inr (nk, w1)"
    and st: "xkb_state_new (close_fd (munmap w1) fd) nk alloc_ok = Inr (ns, w2)"
    and u1: "xkb_keymap_unref w2 (xkb_keymap (fst cw)) = Inr w3"
    and u2: "xkb_state_unref w3 (client_state.xkb_state (fst cw)) = Inr w'"
    apply (elim exE conjE)
    apply (rule that)
    apply simp_all
    done
  have a: "os_part w1 = os_part (mapped_in (snd cw))"
    using xkb_keymap_new_os [OF new] .
  have b: "os_part w2 = os_part (close_fd (munmap w1) fd)"
    using xkb_state_new_os [OF st] .
  have c: "os_part w3 = os_part w2"
    using xkb_keymap_unref_os [OF u1] .
  have d: "os_part w' = os_part w3"
    using xkb_state_unref_os [OF u2] .
  show ?thesis
    using a b c d by (simp add: os_part_def os_defs)
qed

lemma keymap_map_failure:
  "keyboard_handle_keymap L gw format fd sz None alloc_ok =
     Inr (fst gw, close_fd (eprint (snd gw) (Printf ''Failed to mmap keymap\<newline>'' [])) fd)"
  by (simp add: keyboard_handle_keymap_def)

subsection \<open>The descriptor of the keymap\<close>

text \<open>
  Claim C6, amended. In \<^verbatim>\<open>gettext.c\<close> the keymap handler closes the descriptor on every
  path on which it returns, and leaves no mapping behind. When the mapping fails it
  prints a diagnostic, closes the descriptor and returns with the program's structure
  and the library's objects untouched (it does not set the error flag). In
  \<^verbatim>\<open>waylandbook.example.c\<close> the handler closes the descriptor when it returns, which it
  does only for the expected format and a successful mapping: otherwise an \<^verbatim>\<open>assert\<close>
  fails.
\<close>

theorem keymap_descriptor_closed:
  "(\<exists>w'. keyboard_handle_keymap L gw format fd sz None alloc_ok = Inr (fst gw, w')
        \<and> open_fds w' = open_fds (snd gw) - {fd}
        \<and> live_maps w' = live_maps (snd gw)
        \<and> std_err w' = std_err (snd gw) @ [Printf ''Failed to mmap keymap\<newline>'' []]
        \<and> keymap_objs w' = keymap_objs (snd gw) \<and> state_objs w' = state_objs (snd gw))
   \<and> (\<forall>g' w'. keyboard_handle_keymap L gw format fd sz mapped alloc_ok = Inr (g', w') \<longrightarrow>
          open_fds w' = open_fds (snd gw) - {fd} \<and> live_maps w' = live_maps (snd gw))
   \<and> (\<forall>cs' w'. wl_keyboard_keymap H L cw format fd sz mapped alloc_ok = Inr (cs', w') \<longrightarrow>
          format = WL_KEYBOARD_KEYMAP_FORMAT_XKB_V1 H \<and> mapped \<noteq> None
          \<and> open_fds w' = open_fds (snd cw) - {fd} \<and> live_maps w' = live_maps (snd cw))
   \<and> (format \<noteq> WL_KEYBOARD_KEYMAP_FORMAT_XKB_V1 H \<or> mapped = None \<longrightarrow>
          wl_keyboard_keymap H L cw format fd sz mapped alloc_ok = Inl AssertionFailed)"
proof (intro conjI allI impI)
  show "\<exists>w'. keyboard_handle_keymap L gw format fd sz None alloc_ok = Inr (fst gw, w')
        \<and> open_fds w' = open_fds (snd gw) - {fd}
        \<and> live_maps w' = live_maps (snd gw)
        \<and> std_err w' = std_err (snd gw) @ [Printf ''Failed to mmap keymap\<newline>'' []]
        \<and> keymap_objs w' = keymap_objs (snd gw) \<and> state_objs w' = state_objs (snd gw)"
    by (simp add: keymap_map_failure os_defs)
next
  fix g' w'
  assume "keyboard_handle_keymap L gw format fd sz mapped alloc_ok = Inr (g', w')"
  from keymap_returns_os [OF this]
  show "open_fds w' = open_fds (snd gw) - {fd}" and "live_maps w' = live_maps (snd gw)"
    by simp_all
next
  fix cs' w'
  assume ret: "wl_keyboard_keymap H L cw format fd sz mapped alloc_ok = Inr (cs', w')"
  from wl_keymap_returns_os [OF ret]
  show "open_fds w' = open_fds (snd cw) - {fd}" and "live_maps w' = live_maps (snd cw)"
    by simp_all
  show "format = WL_KEYBOARD_KEYMAP_FORMAT_XKB_V1 H"
    using ret wl_keymap_asserts [of format H mapped L cw fd sz alloc_ok]
    by (cases "format = WL_KEYBOARD_KEYMAP_FORMAT_XKB_V1 H") simp_all
  show "mapped \<noteq> None"
    using ret wl_keymap_asserts [of format H mapped L cw fd sz alloc_ok]
    by (cases mapped) simp_all
next
  assume "format \<noteq> WL_KEYBOARD_KEYMAP_FORMAT_XKB_V1 H \<or> mapped = None"
  then show "wl_keyboard_keymap H L cw format fd sz mapped alloc_ok = Inl AssertionFailed"
    by (rule wl_keymap_asserts)
qed

lemma install_demo:
  "keyboard_handle_keymap demo_library (demo_globals, demo_world) 1 3 18 (Some good_keymap) True
     = Inr (ready_globals, ready_world)"
  by (simp add: keyboard_handle_keymap_def replace_keymap_def xkb_defs os_defs demo_defs)

lemma install_demo_client:
  "wl_keyboard_keymap protocol_headers demo_library (demo_client, demo_world) 1 3 18
     (Some good_keymap) True = Inr (ready_client, ready_world)"
  by (simp add: wl_keyboard_keymap_def xkb_defs os_defs demo_defs)

theorem keymap_descriptor_closed_witness:
  "keyboard_handle_keymap demo_library (demo_globals, demo_world) 1 3 18 (Some good_keymap) True
     = Inr (ready_globals, ready_world)
   \<and> wl_keyboard_keymap protocol_headers demo_library (demo_client, demo_world) 1 3 18
       (Some good_keymap) True = Inr (ready_client, ready_world)
   \<and> open_fds ready_world = open_fds (snd (demo_globals, demo_world)) - {3}
   \<and> live_maps ready_world = live_maps (snd (demo_globals, demo_world))
   \<and> (None :: string option) = None
   \<and> wl_keyboard_keymap protocol_headers demo_library (demo_client, demo_world) 1 3 18
       None True = Inl AssertionFailed"
  using keymap_descriptor_closed [of demo_library "(demo_globals, demo_world)" 1 3 18 True
          "Some good_keymap" protocol_headers "(demo_client, demo_world)"]
        keymap_descriptor_closed [of demo_library "(demo_globals, demo_world)" 1 3 18 True
          None protocol_headers "(demo_client, demo_world)"]
        install_demo install_demo_client
  by simp

text \<open>
  Claim C6 says that the mapping step closes the descriptor and reports failure on
  every path of both programs. In \<^verbatim>\<open>waylandbook.example.c\<close> a failed mapping, or a
  format other than XKB_V1, fails an \<^verbatim>\<open>assert\<close>: the process is aborted, nothing is
  reported to a caller and the descriptor is not closed by the handler.
\<close>

theorem keymap_assert_counterexample:
  "wl_keyboard_keymap protocol_headers demo_library (ready_client, demo_world) 1 3 18 None True
     = Inl AssertionFailed
   \<and> wl_keyboard_keymap protocol_headers demo_library (ready_client, demo_world) 0 3 18
        (Some good_keymap) True = Inl AssertionFailed"
  by (simp add: wl_keyboard_keymap_def demo_defs)


lemma keymap_compile_failure:
  assumes ctx: "xkb_context (fst gw) \<noteq> None" and fail: "compile_keymap L str = None"
  shows "keyboard_handle_keymap L gw format fd sz (Some str) alloc_ok =
     Inr (errorOccurred (fst gw),
          eprint (close_fd (munmap (mapped_in (snd gw))) fd)
            (Printf ''Failed to compile keymap\<newline>'' []))"
proof -
  from ctx obtain c where c: "xkb_context (fst gw) = Some c"
    by (cases "xkb_context (fst gw)") auto
  show ?thesis
    by (simp add: keyboard_handle_keymap_def xkb_keymap_new_from_string_def c fail)
qed

lemma main_loop_keymap_error:
  assumes "keyboard_handle_keymap L gw format fd sz mapped alloc_ok = Inr gw'"
    and "error (fst gw')"
  shows "main_loop H L gw (Dispatched [EvKeymap format fd sz mapped alloc_ok] # ds) = leave_loop gw'"
  using assms by simp



subsection \<open>The keymap and the state built from it\<close>

text \<open>
  In \<^verbatim>\<open>gettext.c\<close> every handler of the keyboard listener keeps the pair sound, on every
  path: the keymap handler releases the old state before the old keymap and builds the
  new state from the keymap it has just stored. From a sound pair no handler reads a
  released object; the one fault left is a key or modifier event that finds no state.
\<close>

lemma replace_keymap_consistent:
  assumes pc: "pair_consistent (g, w2)"
    and new: "keymap_objs w2 k = Some (km, 1)"
    and k: "k < next_addr w2"
    and kk: "keymap g \<noteq> Some k"
    and fr: "fresh w2"
  shows "\<exists>g' w'. replace_keymap g w2 k alloc_ok = Inr (g', w')
           \<and> pair_consistent (g', w') \<and> fresh w' \<and> xkb_context g' = xkb_context g
           \<and> keymap g' = Some k"
proof (cases "keymap g")
  case None
  with pc have s: "xkb_state g = None"
    by (simp add: pair_consistent_def)
  show ?thesis
    using None s new k fr
    by (cases alloc_ok)
       (auto simp add: replace_keymap_def xkb_state_new_def pair_consistent_def fresh_def
          errorOccurred_def eprint_def)
next
  case (Some k0)
  with pc obtain km0 rc0 where k0: "keymap_objs w2 k0 = Some (km0, rc0)"
    by (auto simp add: pair_consistent_def split: option.splits)
  from kk Some have ne: "k0 \<noteq> k" by simp
  show ?thesis
  proof (cases "xkb_state g")
    case None
    with pc Some k0 have rc0: "1 \<le> rc0"
      by (simp add: pair_consistent_def)
    show ?thesis
      using None Some k0 rc0 ne new k fr
      by (cases alloc_ok)
         (auto simp add: replace_keymap_def xkb_state_new_def xkb_keymap_unref_def
            pair_consistent_def fresh_def errorOccurred_def eprint_def)
  next
    case s: (Some s)
    with pc Some k0 obtain m rcs where st: "state_objs w2 s = Some (k0, m, rcs)"
      and rcs: "1 \<le> rcs" and rc0: "2 \<le> rc0"
      by (auto simp add: pair_consistent_def split: option.splits)
    from st fr have sl: "s < next_addr w2"
      by (auto simp add: fresh_def not_le [symmetric])
    show ?thesis
      using s Some k0 st rcs rc0 ne new k fr sl
      by (cases alloc_ok; cases "rcs \<le> 1")
         (auto simp add: replace_keymap_def xkb_state_new_def xkb_keymap_unref_def
            xkb_state_unref_def pair_consistent_def fresh_def errorOccurred_def eprint_def)
  qed
qed


lemma pair_consistent_cong:
  assumes "keymap_objs w' = keymap_objs w" and "state_objs w' = state_objs w"
    and "keymap g' = keymap g" and "xkb_state g' = xkb_state g"
  shows "pair_consistent (g', w') = pair_consistent (g, w)"
  using assms by (simp add: pair_consistent_def split: option.splits)

lemma fresh_cong:
  assumes "keymap_objs w' = keymap_objs w" and "state_objs w' = state_objs w"
    and "next_addr w' = next_addr w"
  shows "fresh w' = fresh w"
  using assms by (simp add: fresh_def)

lemma keymap_keeps_consistent:
  assumes pc: "pair_consistent gw" and fr: "fresh (snd gw)"
    and ctx: "xkb_context (fst gw) \<noteq> None"
  shows "\<exists>g' w'. keyboard_handle_keymap L gw format fd sz mapped alloc_ok = Inr (g', w')
           \<and> pair_consistent (g', w') \<and> fresh w' \<and> xkb_context g' = xkb_context (fst gw)"
proof (cases mapped)
  case None
  let ?w' = "close_fd (eprint (snd gw) (Printf ''Failed to mmap keymap\<newline>'' [])) fd"
  have h: "keyboard_handle_keymap L gw format fd sz mapped alloc_ok = Inr (fst gw, ?w')"
    using None by (simp add: keymap_map_failure)
  have p: "pair_consistent (fst gw, ?w') = pair_consistent (fst gw, snd gw)"
    by (rule pair_consistent_cong) (simp_all add: os_defs)
  have f: "fresh ?w' = fresh (snd gw)"
    by (rule fresh_cong) (simp_all add: os_defs)
  show ?thesis
    using h p f pc fr by simp
next
  case (Some str)
  from ctx obtain c where c: "xkb_context (fst gw) = Some c"
    by (cases "xkb_context (fst gw)") auto
  show ?thesis
  proof (cases "compile_keymap L str")
    case None
    let ?g' = "errorOccurred (fst gw)"
    let ?w' = "eprint (close_fd (munmap (mapped_in (snd gw))) fd)
            (Printf ''Failed to compile keymap\<newline>'' [])"
    have h: "keyboard_handle_keymap L gw format fd sz mapped alloc_ok = Inr (?g', ?w')"
      using keymap_compile_failure [OF ctx None] Some by simp
    have p: "pair_consistent (?g', ?w') = pair_consistent (fst gw, snd gw)"
      by (rule pair_consistent_cong) (simp_all add: os_defs errorOccurred_def)
    have f: "fresh ?w' = fresh (snd gw)"
      by (rule fresh_cong) (simp_all add: os_defs)
    have x: "xkb_context ?g' = xkb_context (fst gw)"
      by (simp add: errorOccurred_def)
    show ?thesis
      using h p f x pc fr by simp
  next
    case km: (Some km)
    let ?k = "next_addr (snd gw)"
    let ?w1 = "(mapped_in (snd gw))\<lparr>keymap_objs := (keymap_objs (mapped_in (snd gw)))(?k \<mapsto> (km, 1)),
                 next_addr := ?k + 1\<rparr>"
    let ?w2 = "close_fd (munmap ?w1) fd"
    have h: "keyboard_handle_keymap L gw format fd sz mapped alloc_ok
               = replace_keymap (fst gw) ?w2 ?k alloc_ok"
      using Some km c
      by (simp add: keyboard_handle_keymap_def xkb_keymap_new_from_string_def mapped_in_def)
    have none: "keymap_objs (snd gw) ?k = None" "state_objs (snd gw) ?k = None"
      using fr by (simp_all add: fresh_def)
    have kk: "keymap (fst gw) \<noteq> Some ?k"
      using pc none by (auto simp add: pair_consistent_def)
    have pc2: "pair_consistent (fst gw, ?w2)"
      using pc none kk
      by (auto simp add: pair_consistent_def os_defs split: option.splits)
    have new: "keymap_objs ?w2 ?k = Some (km, 1)"
      by (simp add: os_defs)
    have lt: "?k < next_addr ?w2"
      by (simp add: os_defs)
    have fr2: "fresh ?w2"
      using fr by (simp add: fresh_def os_defs)
    from replace_keymap_consistent [OF pc2 new lt kk fr2, of alloc_ok]
    show ?thesis
      using h by auto
  qed
qed


lemma consistent_view:
  assumes pc: "pair_consistent gw" and st: "xkb_state (fst gw) = Some s"
  shows "\<exists>k km m rcs rc. keymap (fst gw) = Some k \<and> state_objs (snd gw) s = Some (k, m, rcs)
           \<and> keymap_objs (snd gw) k = Some (km, rc) \<and> 1 \<le> rcs \<and> 2 \<le> rc"
  using pc st by (auto simp add: pair_consistent_def split: option.splits)

lemma key_keeps_consistent:
  assumes pc: "pair_consistent gw" and fr: "fresh (snd gw)"
  shows "(xkb_state (fst gw) = None \<and> keyboard_handle_key H L gw serial' time' key st = Inl NullPointer)
       \<or> (\<exists>w'. keyboard_handle_key H L gw serial' time' key st = Inr (fst gw, w')
              \<and> pair_consistent (fst gw, w') \<and> fresh w')"
proof (cases "xkb_state (fst gw)")
  case None
  then show ?thesis
    by (simp add: keyboard_handle_key_def xkb_defs)
next
  case (Some s)
  from consistent_view [OF pc Some] obtain k km m rcs rc where
    v: "state_objs (snd gw) s = Some (k, m, rcs)" "keymap_objs (snd gw) k = Some (km, rc)"
    by blast
  have sv: "xkb_state_key_get_syms L (snd gw) (xkb_state (fst gw)) (key + 8)
              = Inr (key_syms L km m (key + 8))"
    using Some v by (simp add: xkb_defs)
  have "\<exists>w'. keyboard_handle_key H L gw serial' time' key st = Inr (fst gw, w')
          \<and> keymap_objs w' = keymap_objs (snd gw) \<and> state_objs w' = state_objs (snd gw)
          \<and> next_addr w' = next_addr (snd gw)"
    using sv by (simp add: keyboard_handle_key_def Let_def os_defs prod_eq_iff)
  then obtain w' where
    h: "keyboard_handle_key H L gw serial' time' key st = Inr (fst gw, w')"
    and o: "keymap_objs w' = keymap_objs (snd gw)" "state_objs w' = state_objs (snd gw)"
    and n: "next_addr w' = next_addr (snd gw)"
    by blast
  have "pair_consistent (fst gw, w') = pair_consistent (fst gw, snd gw)"
    by (rule pair_consistent_cong [OF o]) simp_all
  moreover have "fresh w' = fresh (snd gw)"
    by (rule fresh_cong [OF o n])
  ultimately show ?thesis
    using h pc fr by simp
qed

lemma modifiers_keep_consistent:
  assumes pc: "pair_consistent gw" and fr: "fresh (snd gw)"
  shows "(xkb_state (fst gw) = None
            \<and> keyboard_handle_modifiers gw serial' d la lo grp = Inl NullPointer)
       \<or> (\<exists>w'. keyboard_handle_modifiers gw serial' d la lo grp = Inr (fst gw, w')
              \<and> pair_consistent (fst gw, w') \<and> fresh w')"
proof (cases "xkb_state (fst gw)")
  case None
  then show ?thesis
    by (simp add: keyboard_handle_modifiers_def xkb_defs)
next
  case (Some s)
  from consistent_view [OF pc Some] obtain k km m rcs rc where
    k: "keymap (fst gw) = Some k"
    and v: "state_objs (snd gw) s = Some (k, m, rcs)" "keymap_objs (snd gw) k = Some (km, rc)"
    and r: "1 \<le> rcs" "2 \<le> rc"
    by blast
  let ?m = "\<lparr>depressed_mods = d, latched_mods = la, locked_mods = lo, depressed_layout = 0,
             latched_layout = 0, locked_layout = grp\<rparr>"
  let ?w' = "(snd gw)\<lparr>state_objs := (state_objs (snd gw))(s \<mapsto> (k, ?m, rcs))\<rparr>"
  have h: "keyboard_handle_modifiers gw serial' d la lo grp = Inr (fst gw, ?w')"
    using Some v by (simp add: keyboard_handle_modifiers_def xkb_defs)
  have p: "pair_consistent (fst gw, ?w')"
    using Some k v r by (simp add: pair_consistent_def)
  have "state_objs (snd gw) s \<noteq> None"
    using v by simp
  then have "s < next_addr (snd gw)"
    using fr by (auto simp add: fresh_def not_le [symmetric])
  then have f: "fresh ?w'"
    using fr by (simp add: fresh_def)
  show ?thesis
    using h p f by simp
qed

lemma enter_leave_keep_consistent:
  assumes pc: "pair_consistent gw" and fr: "fresh (snd gw)"
  shows "pair_consistent (keyboard_handle_enter gw serial' surface)"
    and "fresh (snd (keyboard_handle_enter gw serial' surface))"
    and "pair_consistent (keyboard_handle_leave gw serial' surface)"
    and "fresh (snd (keyboard_handle_leave gw serial' surface))"
    and "xkb_context (fst (keyboard_handle_enter gw serial' surface)) = xkb_context (fst gw)"
    and "xkb_context (fst (keyboard_handle_leave gw serial' surface)) = xkb_context (fst gw)"
proof -
  have e: "pair_consistent (keyboard_handle_enter gw serial' surface) = pair_consistent (fst gw, snd gw)"
    unfolding keyboard_handle_enter_def
    by (rule pair_consistent_cong) (simp_all add: os_defs)
  have l: "pair_consistent (keyboard_handle_leave gw serial' surface) = pair_consistent (fst gw, snd gw)"
    unfolding keyboard_handle_leave_def
    by (rule pair_consistent_cong) (simp_all add: os_defs)
  show "pair_consistent (keyboard_handle_enter gw serial' surface)"
    using e pc by simp
  show "pair_consistent (keyboard_handle_leave gw serial' surface)"
    using l pc by simp
  show "fresh (snd (keyboard_handle_enter gw serial' surface))"
    using fr by (simp add: keyboard_handle_enter_def fresh_def os_defs)
  show "fresh (snd (keyboard_handle_leave gw serial' surface))"
    using fr by (simp add: keyboard_handle_leave_def fresh_def os_defs)
  show "xkb_context (fst (keyboard_handle_enter gw serial' surface)) = xkb_context (fst gw)"
    by (simp add: keyboard_handle_enter_def)
  show "xkb_context (fst (keyboard_handle_leave gw serial' surface)) = xkb_context (fst gw)"
    by (simp add: keyboard_handle_leave_def)
qed

lemma dispatch_event_consistent:
  assumes pc: "pair_consistent gw" and fr: "fresh (snd gw)"
    and ctx: "xkb_context (fst gw) \<noteq> None"
  shows "(xkb_state (fst gw) = None \<and> dispatch_event H L gw e = Inl NullPointer)
       \<or> (\<exists>gw'. dispatch_event H L gw e = Inr gw' \<and> pair_consistent gw' \<and> fresh (snd gw')
              \<and> xkb_context (fst gw') \<noteq> None)"
proof (cases e)
  case (EvKeymap format fd sz mapped alloc_ok)
  from keymap_keeps_consistent [OF pc fr ctx, of L format fd sz mapped alloc_ok]
  show ?thesis
    using EvKeymap ctx by auto
next
  case (EvEnter serial' surface)
  then show ?thesis
    using enter_leave_keep_consistent [OF pc fr, of serial' surface] ctx by simp
next
  case (EvLeave serial' surface)
  then show ?thesis
    using enter_leave_keep_consistent [OF pc fr, of serial' surface] ctx by simp
next
  case (EvKey serial' time' key st)
  from key_keeps_consistent [OF pc fr, of H L serial' time' key st]
  show ?thesis
    using EvKey ctx by auto
next
  case (EvModifiers serial' d la lo grp)
  from modifiers_keep_consistent [OF pc fr, of serial' d la lo grp]
  show ?thesis
    using EvModifiers ctx by auto
qed

lemma dispatch_events_consistent:
  assumes "pair_consistent gw" and "fresh (snd gw)" and "xkb_context (fst gw) \<noteq> None"
  shows "dispatch_events H L gw es = Inl NullPointer
       \<or> (\<exists>gw'. dispatch_events H L gw es = Inr gw' \<and> pair_consistent gw' \<and> fresh (snd gw')
              \<and> xkb_context (fst gw') \<noteq> None)"
  using assms
proof (induction es arbitrary: gw)
  case Nil
  then show ?case
    by simp
next
  case (Cons e es)
  from dispatch_event_consistent [OF Cons.prems, of H L e]
  show ?case
  proof
    assume "xkb_state (fst gw) = None \<and> dispatch_event H L gw e = Inl NullPointer"
    then show ?thesis
      by simp
  next
    assume "\<exists>gw'. dispatch_event H L gw e = Inr gw' \<and> pair_consistent gw' \<and> fresh (snd gw')
              \<and> xkb_context (fst gw') \<noteq> None"
    then obtain gw' where h: "dispatch_event H L gw e = Inr gw'"
      and c: "pair_consistent gw'" "fresh (snd gw')" "xkb_context (fst gw') \<noteq> None"
      by blast
    from Cons.IH [OF c] show ?thesis
      using h by simp
  qed
qed

lemma cleanup_consistent:
  assumes pc: "pair_consistent gw"
  shows "\<exists>w'. cleanup gw = Inr (fst gw, w')"
proof (cases "keymap (fst gw)")
  case None
  then have "xkb_state (fst gw) = None"
    using pc by (simp add: pair_consistent_def)
  then show ?thesis
    using None by (simp add: cleanup_def Let_def prod_eq_iff)
next
  case k: (Some k)
  show ?thesis
  proof (cases "xkb_state (fst gw)")
    case None
    from pc k None obtain km rc where "keymap_objs (snd gw) k = Some (km, rc)"
      by (auto simp add: pair_consistent_def split: option.splits)
    then show ?thesis
      using k None by (simp add: cleanup_def Let_def xkb_defs prod_eq_iff)
  next
    case (Some s)
    from consistent_view [OF pc Some] k obtain km m rcs rc where
      v: "state_objs (snd gw) s = Some (k, m, rcs)" "keymap_objs (snd gw) k = Some (km, rc)"
      and r: "1 \<le> rcs" "2 \<le> rc"
      by auto
    show ?thesis
      using k Some v r by (simp add: cleanup_def Let_def xkb_defs prod_eq_iff)
  qed
qed

lemma main_loop_consistent:
  assumes "pair_consistent gw" and "fresh (snd gw)" and "xkb_context (fst gw) \<noteq> None"
  shows "main_loop H L gw ds = Inl NullPointer \<or> (\<exists>p. main_loop H L gw ds = Inr p)"
  using assms
proof (induction ds arbitrary: gw)
  case Nil
  then show ?case
    by simp
next
  case (Cons d ds)
  show ?case
  proof (cases d)
    case DispatchFailed
    from cleanup_consistent [OF Cons.prems(1)] show ?thesis
      using DispatchFailed by (auto simp add: leave_loop_def)
  next
    case (Dispatched es)
    from dispatch_events_consistent [OF Cons.prems, of H L es]
    show ?thesis
    proof
      assume "dispatch_events H L gw es = Inl NullPointer"
      then show ?thesis
        using Dispatched by simp
    next
      assume "\<exists>gw'. dispatch_events H L gw es = Inr gw' \<and> pair_consistent gw' \<and> fresh (snd gw')
              \<and> xkb_context (fst gw') \<noteq> None"
      then obtain gw' where h: "dispatch_events H L gw es = Inr gw'"
        and c: "pair_consistent gw'" "fresh (snd gw')" "xkb_context (fst gw') \<noteq> None"
        by blast
      from cleanup_consistent [OF c(1)] Cons.IH [OF c] show ?thesis
        using Dispatched h by (auto simp add: leave_loop_def)
    qed
  qed
qed

subsection \<open>Failures and the event loop\<close>











lemmas keymap_eval = keyboard_handle_keymap_def replace_keymap_def xkb_defs os_defs demo_defs
  errorOccurred_def leave_loop_def cleanup_def



lemma state_view_cong:
  "keymap_objs w' = keymap_objs w \<Longrightarrow> state_objs w' = state_objs w \<Longrightarrow>
     state_view w' p = state_view w p"
  by (simp add: state_view_def split: option.splits)

lemma key_report_cong:
  assumes "state_view w' (xkb_state g') = state_view w (xkb_state g)"
  shows "key_report H L (g', w') key st = key_report H L (g, w) key st"
proof (cases "state_view w (xkb_state g)")
  case (Inl e)
  with assms show ?thesis
    by (simp add: key_report_def keyboard_handle_key_def xkb_state_key_get_syms_def)
next
  case (Inr v)
  obtain km m where v: "v = (km, m)" by (cases v)
  from Inr v assms show ?thesis
    by (simp add: key_report_def keyboard_handle_key_def xkb_state_key_get_syms_def
        Let_def oprint_def)
qed

subsection \<open>A keymap that does not compile\<close>

text \<open>
  Claim C2, amended. In \<^verbatim>\<open>gettext.c\<close> a keymap event whose text fails to compile
  leaves the keymap and state pointers and every library object as they were (nothing
  is released), so the state still leads to the keymap it was built from and a key
  event prints what it printed before; a sound pair stays sound. The handler prints a
  diagnostic and sets the error flag. (\<^verbatim>\<open>waylandbook.example.c\<close> does not check the result of the compilation:
  see the counterexample below.)
\<close>

theorem failed_install_keeps_pair:
  assumes ctx: "xkb_context (fst gw) \<noteq> None" and fail: "compile_keymap L str = None"
  shows "\<exists>g' w'. keyboard_handle_keymap L gw format fd sz (Some str) alloc_ok = Inr (g', w')
     \<and> error g'
     \<and> std_err w' = std_err (snd gw) @ [Printf ''Failed to compile keymap\<newline>'' []]
     \<and> keymap g' = keymap (fst gw) \<and> xkb_state g' = xkb_state (fst gw)
     \<and> keymap_objs w' = keymap_objs (snd gw) \<and> state_objs w' = state_objs (snd gw)
     \<and> state_view w' (xkb_state g') = state_view (snd gw) (xkb_state (fst gw))
     \<and> (\<forall>H key st. key_report H L (g', w') key st = key_report H L gw key st)
     \<and> (pair_consistent gw \<longrightarrow> pair_consistent (g', w'))"
proof -
  let ?g' = "errorOccurred (fst gw)"
  let ?w' = "eprint (close_fd (munmap (mapped_in (snd gw))) fd)
            (Printf ''Failed to compile keymap\<newline>'' [])"
  have h: "keyboard_handle_keymap L gw format fd sz (Some str) alloc_ok = Inr (?g', ?w')"
    using keymap_compile_failure [OF ctx fail] .
  have p: "keymap ?g' = keymap (fst gw)" "xkb_state ?g' = xkb_state (fst gw)"
    by (simp_all add: errorOccurred_def)
  have o: "keymap_objs ?w' = keymap_objs (snd gw)" "state_objs ?w' = state_objs (snd gw)"
    by (simp_all add: os_defs)
  have v: "state_view ?w' (xkb_state ?g') = state_view (snd gw) (xkb_state (fst gw))"
    using state_view_cong [OF o] p by simp
  have r: "key_report H L (?g', ?w') key st = key_report H L gw key st" for H key st
    using key_report_cong [OF v, of H L key st] by simp
  have e: "error ?g'"
    by (simp add: errorOccurred_def)
  have d: "std_err ?w' = std_err (snd gw) @ [Printf ''Failed to compile keymap\<newline>'' []]"
    by (simp add: os_defs)
  have "pair_consistent (?g', ?w') = pair_consistent (fst gw, snd gw)"
    by (rule pair_consistent_cong [OF o p])
  then have c: "pair_consistent gw \<longrightarrow> pair_consistent (?g', ?w')"
    by simp
  show ?thesis
    using h e d p o v r c by blast
qed

theorem failed_install_keeps_pair_witness:
  "xkb_context (fst (ready_globals, ready_world\<lparr>open_fds := {4}\<rparr>)) \<noteq> None
   \<and> compile_keymap demo_library ''garbage'' = None
   \<and> keyboard_handle_keymap demo_library (ready_globals, ready_world\<lparr>open_fds := {4}\<rparr>)
        1 4 7 (Some ''garbage'') True
      = Inr (ready_globals\<lparr>error := True\<rparr>,
             ready_world\<lparr>std_err := [Printf ''Failed to compile keymap\<newline>'' []]\<rparr>)
   \<and> key_report protocol_headers demo_library
        (ready_globals, ready_world\<lparr>open_fds := {4}\<rparr>) 30 1
      = Inr [Printf ''Key %s %s\<newline>'' [AStr ''a'', AStr ''pressed'']]
   \<and> key_report protocol_headers demo_library
        (ready_globals\<lparr>error := True\<rparr>,
         ready_world\<lparr>std_err := [Printf ''Failed to compile keymap\<newline>'' []]\<rparr>) 30 1
      = Inr [Printf ''Key %s %s\<newline>'' [AStr ''a'', AStr ''pressed'']]
   \<and> pair_consistent (ready_globals, ready_world\<lparr>open_fds := {4}\<rparr>)
   \<and> pair_consistent
        (ready_globals\<lparr>error := True\<rparr>,
         ready_world\<lparr>std_err := [Printf ''Failed to compile keymap\<newline>'' []]\<rparr>)"
  using failed_install_keeps_pair [of "(ready_globals, ready_world\<lparr>open_fds := {4}\<rparr>)"
          demo_library "''garbage''" 1 4 7 True]
  by (simp add: keymap_eval key_report_def keyboard_handle_key_def pair_consistent_def)

text \<open>
  Claim C2 says that in both programs a failed compilation leaves the installed pair
  active. \<^verbatim>\<open>wl_keyboard_keymap\<close> of \<^verbatim>\<open>waylandbook.example.c\<close> hands the \<^verbatim>\<open>NULL\<close> keymap
  to \<^verbatim>\<open>xkb_state_new\<close>, which dereferences it; and when \<^verbatim>\<open>xkb_state_new\<close> returns
  \<^verbatim>\<open>NULL\<close> before that (no memory), the handler releases the installed keymap and state
  and stores two null pointers.
\<close>

theorem unchecked_compile_result_counterexample:
  "wl_keyboard_keymap protocol_headers demo_library
      (ready_client, ready_world\<lparr>open_fds := {4}\<rparr>) 1 4 7 (Some ''garbage'') True
     = Inl NullPointer
   \<and> wl_keyboard_keymap protocol_headers demo_library
        (ready_client, ready_world\<lparr>open_fds := {4}\<rparr>) 1 4 7 (Some ''garbage'') False
     = Inr (ready_client\<lparr>client_state.xkb_state := None, xkb_keymap := None\<rparr>,
            ready_world\<lparr>keymap_objs := Map.empty, state_objs := Map.empty\<rparr>)"
  by (simp add: wl_keyboard_keymap_def xkb_defs os_defs demo_defs)

subsection \<open>The key code\<close>

text \<open>
  Claim C3: a key event with hardware code \<open>k\<close> is translated with exactly the code
  \<open>k + 8\<close> (in \<^verbatim>\<open>uint32_t\<close> arithmetic). When the state pointer leads to a keymap and
  modifiers, the handler of \<^verbatim>\<open>gettext.c\<close> prints the first symbol the library gives for
  \<open>k + 8\<close> (nothing when there is none), and the handler of \<^verbatim>\<open>waylandbook.example.c\<close>
  prints the symbol and the UTF-8 text the library gives for \<open>k + 8\<close>. The dispatcher
  hands the code on as it arrived. No other code is looked up: two libraries that agree
  on \<open>k + 8\<close> give the same result, whatever they answer for \<open>k\<close> itself or any other
  code.
\<close>

theorem key_translation_uses_code_plus_8:
  "(state_view (snd gw) (xkb_state (fst gw)) = Inr (km, m) \<longrightarrow>
      keyboard_handle_key H L gw serial' time' key st =
        Inr (fst gw,
          (case key_syms L km m (key + 8) of
             [] \<Rightarrow> snd gw
           | s # ss \<Rightarrow>
               oprint (snd gw)
                 (if s = XKB_KEY_BackSpace H
                  then Printf (if st = WL_KEYBOARD_KEY_STATE_PRESSED H
                               then ''Backspace pressed\<newline>''
                               else ''Backspace released\<newline>'') []
                  else Printf ''Key %s %s\<newline>''
                         [AStr (keysym_name L s 64),
                          AStr (if st = WL_KEYBOARD_KEY_STATE_PRESSED H
                                then ''pressed'' else ''released'')]))))
   \<and> (state_view (snd cw) (client_state.xkb_state (fst cw)) = Inr (kmc, mc) \<longrightarrow>
      wl_keyboard_key H L cw serial' time' key st =
        Inr (fst cw,
          (snd cw)\<lparr>std_err := std_err (snd cw) @
             [Printf ''[DEBUG] key %s: sym: %-12s (%d), ''
                [AStr (if st = WL_KEYBOARD_KEY_STATE_PRESSED H then ''press'' else ''release''),
                 AStr (keysym_name L (key_one_sym L kmc mc (key + 8)) 128),
                 AInt (key_one_sym L kmc mc (key + 8))],
              Printf (''[DEBUG] utf8: '' @ [CHR 0x27] @ ''%s'' @ [CHR 0x27] @ ''\<newline>'')
                [AStr (key_utf8 L kmc mc (key + 8) 128)]]\<rparr>))
   \<and> dispatch_event H L gw (EvKey serial' time' key st)
       = keyboard_handle_key H L gw serial' time' key st
   \<and> ((\<forall>km m. key_syms L' km m (key + 8) = key_syms L km m (key + 8))
      \<and> (\<forall>km m. key_one_sym L' km m (key + 8) = key_one_sym L km m (key + 8))
      \<and> (\<forall>km m n. key_utf8 L' km m (key + 8) n = key_utf8 L km m (key + 8) n)
      \<and> keysym_name L' = keysym_name L \<longrightarrow>
        keyboard_handle_key H L' gw serial' time' key st
          = keyboard_handle_key H L gw serial' time' key st
      \<and> wl_keyboard_key H L' cw serial' time' key st
          = wl_keyboard_key H L cw serial' time' key st)"
proof -
  have sv: "state_view (eprint w p) q = state_view w q" for w :: "'a world" and p q
    by (rule state_view_cong) (simp_all add: eprint_def)
  have sv2: "state_view (w\<lparr>std_err := x\<rparr>) q = state_view w q" for w :: "'a world" and x q
    by (rule state_view_cong) simp_all
  have g: "keyboard_handle_key H L gw serial' time' key st =
        Inr (fst gw,
          (case key_syms L km m (key + 8) of
             [] \<Rightarrow> snd gw
           | s # ss \<Rightarrow>
               oprint (snd gw)
                 (if s = XKB_KEY_BackSpace H
                  then Printf (if st = WL_KEYBOARD_KEY_STATE_PRESSED H
                               then ''Backspace pressed\<newline>''
                               else ''Backspace released\<newline>'') []
                  else Printf ''Key %s %s\<newline>''
                         [AStr (keysym_name L s 64),
                          AStr (if st = WL_KEYBOARD_KEY_STATE_PRESSED H
                                then ''pressed'' else ''released'')])))"
    if v: "state_view (snd gw) (xkb_state (fst gw)) = Inr (km, m)"
  proof (cases "key_syms L km m (key + 8)")
    case Nil
    with v show ?thesis
      by (simp add: keyboard_handle_key_def xkb_state_key_get_syms_def Let_def)
  next
    case (Cons s ss)
    with v show ?thesis
      by (simp add: keyboard_handle_key_def xkb_state_key_get_syms_def Let_def)
  qed
  have c: "wl_keyboard_key H L cw serial' time' key st =
        Inr (fst cw,
          (snd cw)\<lparr>std_err := std_err (snd cw) @
             [Printf ''[DEBUG] key %s: sym: %-12s (%d), ''
                [AStr (if st = WL_KEYBOARD_KEY_STATE_PRESSED H then ''press'' else ''release''),
                 AStr (keysym_name L (key_one_sym L kmc mc (key + 8)) 128),
                 AInt (key_one_sym L kmc mc (key + 8))],
              Printf (''[DEBUG] utf8: '' @ [CHR 0x27] @ ''%s'' @ [CHR 0x27] @ ''\<newline>'')
                [AStr (key_utf8 L kmc mc (key + 8) 128)]]\<rparr>)"
    if v: "state_view (snd cw) (client_state.xkb_state (fst cw)) = Inr (kmc, mc)"
    using v
    by (simp add: wl_keyboard_key_def xkb_state_key_get_one_sym_def
        xkb_state_key_get_utf8_def Let_def sv2 eprint_def)
  have d: "dispatch_event H L gw (EvKey serial' time' key st)
       = keyboard_handle_key H L gw serial' time' key st"
    by simp
  have a: "keyboard_handle_key H L' gw serial' time' key st
           = keyboard_handle_key H L gw serial' time' key st"
    if syms: "\<forall>km m. key_syms L' km m (key + 8) = key_syms L km m (key + 8)"
      and name: "keysym_name L' = keysym_name L"
  proof (cases "state_view (snd gw) (xkb_state (fst gw))")
    case (Inl e)
    then show ?thesis
      by (simp add: keyboard_handle_key_def xkb_state_key_get_syms_def)
  next
    case (Inr v)
    obtain km m where v: "v = (km, m)" by (cases v)
    from Inr v syms name show ?thesis
      by (simp add: keyboard_handle_key_def xkb_state_key_get_syms_def Let_def)
  qed
  have b: "wl_keyboard_key H L' cw serial' time' key st
           = wl_keyboard_key H L cw serial' time' key st"
    if one: "\<forall>km m. key_one_sym L' km m (key + 8) = key_one_sym L km m (key + 8)"
      and utf8: "\<forall>km m n. key_utf8 L' km m (key + 8) n = key_utf8 L km m (key + 8) n"
      and name: "keysym_name L' = keysym_name L"
  proof (cases "state_view (snd cw) (client_state.xkb_state (fst cw))")
    case (Inl e)
    then show ?thesis
      by (simp add: wl_keyboard_key_def xkb_state_key_get_one_sym_def)
  next
    case (Inr v)
    obtain km m where v: "v = (km, m)" by (cases v)
    from Inr v one utf8 name show ?thesis
      by (simp add: wl_keyboard_key_def xkb_state_key_get_one_sym_def
          xkb_state_key_get_utf8_def Let_def sv)
  qed
  show ?thesis
    apply (intro conjI impI)
        apply (erule g)
       apply (erule c)
      apply (rule d)
     apply (rule a)
      apply simp
     apply simp
    apply (rule b)
      apply simp
     apply simp
    apply simp
    done
qed

theorem key_translation_uses_code_plus_8_witness:
  "state_view (snd (ready_globals, ready_world)) (xkb_state (fst (ready_globals, ready_world)))
     = Inr (1, zero_mods)
   \<and> state_view (snd (ready_client, ready_world))
        (client_state.xkb_state (fst (ready_client, ready_world)))
     = Inr (1, zero_mods)
   \<and> (\<forall>km m. key_syms other_library km m (30 + 8) = key_syms demo_library km m (30 + 8))
   \<and> (\<forall>km m. key_one_sym other_library km m (30 + 8) = key_one_sym demo_library km m (30 + 8))
   \<and> (\<forall>km m n. key_utf8 other_library km m (30 + 8) n = key_utf8 demo_library km m (30 + 8) n)
   \<and> keysym_name other_library = keysym_name demo_library
   \<and> keyboard_handle_key protocol_headers demo_library (ready_globals, ready_world) 0 0 30 1
       = Inr (ready_globals,
              ready_world\<lparr>std_out := [Printf ''Key %s %s\<newline>'' [AStr ''a'', AStr ''pressed'']]\<rparr>)
   \<and> keyboard_handle_key protocol_headers other_library (ready_globals, ready_world) 0 0 30 1
       = Inr (ready_globals,
              ready_world\<lparr>std_out := [Printf ''Key %s %s\<newline>'' [AStr ''a'', AStr ''pressed'']]\<rparr>)
   \<and> wl_keyboard_key protocol_headers demo_library (ready_client, ready_world) 0 0 30 1
       = Inr (ready_client,
              ready_world\<lparr>std_err :=
                [Printf ''[DEBUG] key %s: sym: %-12s (%d), '' [AStr ''press'', AStr ''a'', AInt 0x61],
                 Printf (''[DEBUG] utf8: '' @ [CHR 0x27] @ ''%s'' @ [CHR 0x27] @ ''\<newline>'')
                   [AStr ''a'']]\<rparr>)
   \<and> wl_keyboard_key protocol_headers other_library (ready_client, ready_world) 0 0 30 1
       = wl_keyboard_key protocol_headers demo_library (ready_client, ready_world) 0 0 30 1
   \<and> dispatch_event protocol_headers demo_library (ready_globals, ready_world) (EvKey 0 0 14 0)
       = Inr (ready_globals,
              ready_world\<lparr>std_out := [Printf ''Backspace released\<newline>'' []]\<rparr>)
   \<and> key_syms demo_library 1 zero_mods 30 = []
   \<and> key_syms other_library 1 zero_mods 30 = [0x62]"
  using key_translation_uses_code_plus_8 [of "(ready_globals, ready_world)" 1 zero_mods
          protocol_headers demo_library 0 0 30 1 "(ready_client, ready_world)" 1 zero_mods
          other_library]
  by (simp add: other_library_def demo_defs keyboard_handle_key_def wl_keyboard_key_def
      xkb_defs os_defs)

subsection \<open>Events before a keymap is installed\<close>

lemma null_state_faults:
  assumes "xkb_state (fst gw) = None"
  shows "keyboard_handle_key H L gw serial' time' key st = Inl NullPointer
       \<and> keyboard_handle_modifiers gw serial' d la lo g = Inl NullPointer"
  using assms
  by (simp add: keyboard_handle_key_def keyboard_handle_modifiers_def xkb_defs)

text \<open>
  Claim C5 says that key and modifier events are harmless while no keymap is installed.
  In \<^verbatim>\<open>gettext.c\<close> the handlers hand \<^verbatim>\<open>globals->xkb_state\<close> to the library without
  looking at it. After a keymap event whose mapping failed (which the handler survives,
  with the state still \<^verbatim>\<open>NULL\<close> and the error flag clear), a key event and a modifier
  event each pass \<^verbatim>\<open>NULL\<close> to a function that dereferences it.
\<close>

theorem uninitialized_key_event_null_state:
  "keyboard_handle_keymap demo_library (demo_globals, demo_world) 1 3 18 None True
     = Inr (demo_globals,
            demo_world\<lparr>open_fds := {}, std_err := [Printf ''Failed to mmap keymap\<newline>'' []]\<rparr>)
   \<and> keyboard_handle_key protocol_headers demo_library
        (demo_globals,
         demo_world\<lparr>open_fds := {}, std_err := [Printf ''Failed to mmap keymap\<newline>'' []]\<rparr>)
        0 0 30 1 = Inl NullPointer
   \<and> keyboard_handle_modifiers
        (demo_globals,
         demo_world\<lparr>open_fds := {}, std_err := [Printf ''Failed to mmap keymap\<newline>'' []]\<rparr>)
        0 0 0 0 0 = Inl NullPointer
   \<and> main_loop protocol_headers demo_library (demo_globals, demo_world)
        [Dispatched [EvKeymap 1 3 18 None True], Dispatched [EvModifiers 0 0 0 0 0]]
       = Inl NullPointer"
  by (simp add: keymap_eval keyboard_handle_key_def keyboard_handle_modifiers_def)

end
